theory Spec2Isabelle
  imports Complex_Main
begin

section \<open>Square-root unscented Kalman filter for parameter estimation\<close>

text \<open>
  A shallow embedding of \<^verbatim>\<open>src/sysid/sr_ukf_parameter_estimation.c\<close>.

  \<^item> A C array of \<^verbatim>\<open>float\<close> is a list of reals, read with \<open>!\<close> and written with
    list update. The arithmetic of \<^verbatim>\<open>float\<close> is idealised as the arithmetic of the reals:
    \<open>+\<close>, \<open>-\<close>, \<open>*\<close>, \<open>/\<close>, \<open>sqrt\<close> and \<open>abs\<close> stand for the C operators,
    \<^verbatim>\<open>sqrtf\<close> and \<^verbatim>\<open>fabsf\<close>; rounding, infinities and NaN are not
    modelled.
  \<^item> The dimension \<^verbatim>\<open>L\<close> and the sizes derived from it are \<^verbatim>\<open>uint8_t\<close>. They are
    naturals here, and every assignment of an \<^verbatim>\<open>int\<close> expression to a
    \<^verbatim>\<open>uint8_t\<close> variable is written out as \<open>u8\<close> (reduction modulo 256). Index
    expressions such as \<^verbatim>\<open>i * N + j\<close> are evaluated by C in \<^verbatim>\<open>int\<close> and do not
    wrap.
  \<^item> A function that writes through its array arguments takes the arrays and returns the
    ones it wrote.
  \<^item> C checks no array index. Two loops of the file run over \<^verbatim>\<open>2 * L\<close> entries of an
    array that is documented or declared with \<^verbatim>\<open>L * L\<close>: the scaler on the caller's
    \<^verbatim>\<open>Sw\<close>, and the \<^verbatim>\<open>memset\<close> of \<^verbatim>\<open>Pwd\<close>. Their stores are checked in the model, and a
    store outside the array is the value \<open>Inl (OutOfBounds i)\<close>. Every other access is
    a plain list access, in range when \<open>1 \<le> L \<le> 85\<close> and the arrays have their
    documented sizes; the theorems carry the sizes they need.
  \<^item> \<^verbatim>\<open>tran\<close>, \<^verbatim>\<open>mul\<close>, \<^verbatim>\<open>inv\<close>, \<^verbatim>\<open>qr\<close> and \<^verbatim>\<open>cholupdate\<close> are declared in
    \<^verbatim>\<open>control/linalg.h\<close> and defined outside this file. They are parameters of the
    model, collected in the record \<open>linalg\<close>.
\<close>

type_synonym buf = "real list"

definition u8 :: "nat \<Rightarrow> nat" where
  "u8 n = n mod 256"

text \<open>
  A variable-length array on the stack. C leaves it uninitialised; the model starts it
  from zeros.
\<close>

definition stack_array :: "nat \<Rightarrow> buf" where
  "stack_array n = replicate n 0"

subsection \<open>Memory\<close>

datatype fault = OutOfBounds nat

definition store :: "buf \<Rightarrow> nat \<Rightarrow> real \<Rightarrow> fault + buf" where
  "store b i v = (if i < length b then Inr (b[i := v]) else Inl (OutOfBounds i))"

text \<open>\<^verbatim>\<open>memset(b, 0, n * sizeof(float))\<close> and \<^verbatim>\<open>memcpy(dst, src, n * sizeof(float))\<close>.\<close>

definition memset_zero :: "buf \<Rightarrow> nat \<Rightarrow> buf" where
  "memset_zero b n = fold (\<lambda>i b. b[i := 0]) [0..<n] b"

text \<open>The same \<^verbatim>\<open>memset\<close> with its stores checked, entry by entry.\<close>

definition zero_step :: "nat \<Rightarrow> fault + buf \<Rightarrow> fault + buf" where
  "zero_step i r = (case r of Inl e \<Rightarrow> Inl e | Inr b \<Rightarrow> store b i 0)"

definition memset_zero_checked :: "buf \<Rightarrow> nat \<Rightarrow> fault + buf" where
  "memset_zero_checked b n = fold zero_step [0..<n] (Inr b)"

definition memcpy_floats :: "buf \<Rightarrow> buf \<Rightarrow> nat \<Rightarrow> buf" where
  "memcpy_floats dst src n = fold (\<lambda>i b. b[i := src ! i]) [0..<n] dst"

subsection \<open>External collaborators\<close>

text \<open>
  The linear-algebra routines the file calls. Each takes the arrays it reads and returns
  the array it writes:
  \<^item> \<open>tran c A row column\<close>: \<^verbatim>\<open>tran(A, row, column)\<close>, the array \<open>A\<close> afterwards;
  \<^item> \<open>mul c A B row_a column_a column_b\<close>: \<^verbatim>\<open>mul(A, B, C, row_a, column_a, column_b)\<close>,
    the array \<open>C\<close> afterwards;
  \<^item> \<open>inv_c c A row\<close>: \<^verbatim>\<open>inv(A, row)\<close>, whether the inversion succeeded and the array
    \<open>A\<close> afterwards (the file drops whatever \<^verbatim>\<open>inv\<close> returns);
  \<^item> \<open>qr c A row_a column_a only_R\<close>: \<^verbatim>\<open>qr(A, Q, R, row_a, column_a, only_R)\<close>, the arrays
    \<open>Q\<close> and \<open>R\<close> afterwards;
  \<^item> \<open>cholupdate c S x row rank_one_update\<close>:
    \<^verbatim>\<open>cholupdate(S, x, row, rank_one_update)\<close>, the array \<open>S\<close> afterwards.
\<close>

record linalg =
  tran :: "buf \<Rightarrow> nat \<Rightarrow> nat \<Rightarrow> buf"
  mul :: "buf \<Rightarrow> buf \<Rightarrow> nat \<Rightarrow> nat \<Rightarrow> nat \<Rightarrow> buf"
  inv_c :: "buf \<Rightarrow> nat \<Rightarrow> bool \<times> buf"
  qr :: "buf \<Rightarrow> nat \<Rightarrow> nat \<Rightarrow> bool \<Rightarrow> buf \<times> buf"
  cholupdate :: "buf \<Rightarrow> buf \<Rightarrow> nat \<Rightarrow> bool \<Rightarrow> buf"

text \<open>
  The transition function \<^verbatim>\<open>void (*G)(float dw[], float x[], float w[])\<close> receives three
  arrays and may write each of them: it maps their contents before the call to their
  contents after it.
\<close>

type_synonym transition = "buf \<Rightarrow> buf \<Rightarrow> buf \<Rightarrow> buf \<times> buf \<times> buf"

subsection \<open>The stages\<close>

text \<open>
  \<^verbatim>\<open>create_weights\<close>: \<^verbatim>\<open>Wm[0]\<close> and \<^verbatim>\<open>Wc[0]\<close> are stored first, then the loop
  \<^verbatim>\<open>for (uint8_t i = 1; i < N; i++)\<close> stores \<^verbatim>\<open>Wc[i]\<close> and copies it to \<^verbatim>\<open>Wm[i]\<close>.
\<close>

definition create_weights :: "buf \<Rightarrow> buf \<Rightarrow> real \<Rightarrow> real \<Rightarrow> real \<Rightarrow> nat \<Rightarrow> buf \<times> buf" where
  "create_weights Wc Wm alpha beta kappa L =
     (let N = u8 (2 * L + 1);
          lambda = alpha * alpha * (real L + kappa) - real L;
          Wm = Wm[0 := lambda / (real L + lambda)];
          Wc = Wc[0 := Wm ! 0 + 1 - alpha * alpha + beta]
      in fold (\<lambda>i (Wc, Wm).
                 let Wc = Wc[i := 0.5 / (real L + lambda)];
                     Wm = Wm[i := Wc ! i]
                 in (Wc, Wm))
           [1..<N] (Wc, Wm))"

text \<open>\<^verbatim>\<open>scale_Sw_with_lambda_rls_factor\<close>: \<^verbatim>\<open>Sw[i] *= 1.0f / sqrtf(lambda_rls)\<close> for \<^verbatim>\<open>i < M\<close>.
  One pass of the loop is \<open>scale_step\<close>; after a store outside the array nothing more is
  said of the run.\<close>

definition scale_step :: "real \<Rightarrow> nat \<Rightarrow> fault + buf \<Rightarrow> fault + buf" where
  "scale_step c i r = (case r of Inl e \<Rightarrow> Inl e | Inr Sw \<Rightarrow> store Sw i (Sw ! i * c))"

definition scale_Sw_with_lambda_rls_factor :: "buf \<Rightarrow> real \<Rightarrow> nat \<Rightarrow> fault + buf" where
  "scale_Sw_with_lambda_rls_factor Sw lambda_rls L =
     (let M = u8 (2 * L)
      in fold (scale_step (1 / sqrt lambda_rls)) [0..<M] (Inr Sw))"

text \<open>\<^verbatim>\<open>create_sigma_point_matrix\<close>: the first column, then the columns \<^verbatim>\<open>1 .. K-1\<close>,
  then the columns \<^verbatim>\<open>K .. N-1\<close>; in each, the column index is the outer loop.\<close>

definition create_sigma_point_matrix :: "buf \<Rightarrow> buf \<Rightarrow> buf \<Rightarrow> real \<Rightarrow> real \<Rightarrow> nat \<Rightarrow> buf" where
  "create_sigma_point_matrix W what Sw alpha kappa L =
     (let N = u8 (2 * L + 1);
          K = u8 (L + 1);
          lambda = alpha * alpha * (real L + kappa) - real L;
          gamma = sqrt (real L + lambda);
          W = fold (\<lambda>i W. W[i * N := what ! i]) [0..<L] W;
          W = fold (\<lambda>j. fold (\<lambda>i W. W[i * N + j := what ! i + gamma * Sw ! (i * L + j - 1)])
                          [0..<L])
                [1..<K] W
      in fold (\<lambda>j. fold (\<lambda>i W. W[i * N + j := what ! i - gamma * Sw ! (i * L + j - K)])
                       [0..<L])
           [K..<N] W)"

text \<open>\<^verbatim>\<open>compute_transistion_function\<close>: for each column \<^verbatim>\<open>j\<close>, copy the column of \<^verbatim>\<open>W\<close> to
  \<^verbatim>\<open>w\<close>, call \<^verbatim>\<open>G(dw, x, w)\<close>, copy \<^verbatim>\<open>dw\<close> to the column of \<^verbatim>\<open>D\<close>. The arrays \<^verbatim>\<open>dw\<close>
  and \<^verbatim>\<open>w\<close> are locals; \<^verbatim>\<open>x\<close> is the caller's.\<close>

definition compute_transistion_function :: "buf \<Rightarrow> buf \<Rightarrow> buf \<Rightarrow> transition \<Rightarrow> nat \<Rightarrow> buf \<times> buf" where
  "compute_transistion_function D W x G L =
     (let N = u8 (2 * L + 1);
          (D, x, dw, w) =
            fold (\<lambda>j (D, x, dw, w).
                    let w = fold (\<lambda>i w. w[i := W ! (i * N + j)]) [0..<L] w;
                        (dw, x, w) = G dw x w;
                        D = fold (\<lambda>i D. D[i * N + j := dw ! i]) [0..<L] D
                    in (D, x, dw, w))
              [0..<N] (D, x, stack_array L, stack_array L)
      in (D, x))"

text \<open>\<^verbatim>\<open>multiply_sigma_point_matrix_to_weights\<close>: \<^verbatim>\<open>dhat[i] += Wm[j] * D[i * N + j]\<close>.\<close>

definition multiply_sigma_point_matrix_to_weights :: "buf \<Rightarrow> buf \<Rightarrow> buf \<Rightarrow> nat \<Rightarrow> buf" where
  "multiply_sigma_point_matrix_to_weights dhat D Wm L =
     (let N = u8 (2 * L + 1);
          dhat = memset_zero dhat L
      in fold (\<lambda>j. fold (\<lambda>i dhat. dhat[i := dhat ! i + Wm ! j * D ! (i * N + j)]) [0..<L])
           [0..<N] dhat)"

text \<open>\<^verbatim>\<open>create_state_estimation_error_covariance_matrix\<close>. The two loops that fill the
  local \<^verbatim>\<open>AT\<close> are \<open>build_AT\<close>; the vector of the rank-one update is \<open>build_b\<close>.\<close>

definition build_AT :: "buf \<Rightarrow> buf \<Rightarrow> buf \<Rightarrow> buf \<Rightarrow> nat \<Rightarrow> buf" where
  "build_AT Wc D dhat Re_cov L =
     (let N = u8 (2 * L + 1);
          M = u8 (2 * L + L);
          K = u8 (2 * L);
          weight1 = sqrt \<bar>Wc ! 1\<bar>;
          AT = stack_array (L * M);
          AT = fold (\<lambda>j. fold (\<lambda>i AT. AT[i * M + j := weight1 * (D ! (i * N + j + 1) - dhat ! i)])
                           [0..<L])
                 [0..<K] AT
      in fold (\<lambda>j. fold (\<lambda>i AT. AT[i * M + j := sqrt (Re_cov ! (i * L + j - K))]) [0..<L])
           [K..<M] AT)"

definition build_b :: "buf \<Rightarrow> buf \<Rightarrow> nat \<Rightarrow> buf" where
  "build_b D dhat L =
     (let N = u8 (2 * L + 1)
      in fold (\<lambda>i b. b[i := D ! (i * N) - dhat ! i]) [0..<L] (stack_array L))"

definition create_state_estimation_error_covariance_matrix ::
  "linalg \<Rightarrow> buf \<Rightarrow> buf \<Rightarrow> buf \<Rightarrow> buf \<Rightarrow> buf \<Rightarrow> nat \<Rightarrow> buf" where
  "create_state_estimation_error_covariance_matrix c Sd Wc D dhat Re_cov L =
     (let M = u8 (2 * L + L);
          AT = build_AT Wc D dhat Re_cov L;
          AT = tran c AT L M;
          (Q, R) = qr c AT M L True;
          Sd = memcpy_floats Sd R (L * L);
          b = build_b D dhat L;
          rank_one_update = (if Wc ! 0 < 0 then False else True)
      in cholupdate c Sd b L rank_one_update)"

text \<open>\<^verbatim>\<open>create_state_cross_covariance_matrix\<close>: it clears the first \<^verbatim>\<open>K = 2 * L\<close> entries
  of \<^verbatim>\<open>Pwd\<close>, centres \<^verbatim>\<open>W\<close> and \<^verbatim>\<open>D\<close> in place and transposes \<^verbatim>\<open>D\<close> in place, so it
  returns them with \<^verbatim>\<open>Pwd\<close>.\<close>

definition create_state_cross_covariance_matrix ::
  "linalg \<Rightarrow> buf \<Rightarrow> buf \<Rightarrow> buf \<Rightarrow> buf \<Rightarrow> buf \<Rightarrow> buf \<Rightarrow> nat \<Rightarrow> fault + buf \<times> buf \<times> buf" where
  "create_state_cross_covariance_matrix c Pwd Wc W D what dhat L =
     (let N = u8 (2 * L + 1);
          K = u8 (2 * L)
      in case memset_zero_checked Pwd K of
           Inl e \<Rightarrow> Inl e
         | Inr Pwd \<Rightarrow>
             (let (W, D) = fold (\<lambda>j. fold (\<lambda>i (W, D).
                                             (W[i * N + j := W ! (i * N + j) - what ! i],
                                              D[i * N + j := D ! (i * N + j) - dhat ! i]))
                                       [0..<L])
                            [0..<N] (W, D);
                  diagonal_W = memset_zero (stack_array (N * N)) (N * N);
                  diagonal_W = fold (\<lambda>i dW. dW[i * N + i := Wc ! i]) [0..<N] diagonal_W;
                  D = tran c D L N;
                  diagonal_WD = mul c diagonal_W D N N L;
                  Pwd = mul c W diagonal_WD L N L
              in Inr (Pwd, W, D)))"

text \<open>\<^verbatim>\<open>update_state_covarariance_matrix_and_state_estimation_vector\<close>: it writes \<^verbatim>\<open>Sw\<close>
  and \<^verbatim>\<open>what\<close>. The value of \<^verbatim>\<open>inv\<close> is dropped: only the array it leaves is used.\<close>

definition update_state_covarariance_matrix_and_state_estimation_vector ::
  "linalg \<Rightarrow> buf \<Rightarrow> buf \<Rightarrow> buf \<Rightarrow> buf \<Rightarrow> buf \<Rightarrow> buf \<Rightarrow> nat \<Rightarrow> buf \<times> buf" where
  "update_state_covarariance_matrix_and_state_estimation_vector c Sw what dhat d Sd Pwd L =
     (let SdT = memcpy_floats (stack_array (L * L)) Sd (L * L);
          SdT = tran c SdT L L;
          SdTSd = mul c SdT Sd L L L;
          SdTSd = snd (inv_c c SdTSd L);
          K = mul c Pwd SdTSd L L L;
          ddhat = fold (\<lambda>i ddhat. ddhat[i := d ! i - dhat ! i]) [0..<L] (stack_array L);
          Kd = mul c K ddhat L L 1;
          what = fold (\<lambda>i what. what[i := what ! i + Kd ! i]) [0..<L] what;
          U = mul c K Sd L L L;
          (Sw, Uk) = fold (\<lambda>j (Sw, Uk).
                             let Uk = fold (\<lambda>i Uk. Uk[i := U ! (i * L + j)]) [0..<L] Uk
                             in (cholupdate c Sw Uk L False, Uk))
                       [0..<L] (Sw, stack_array L)
      in (Sw, what))"

subsection \<open>The tick\<close>

text \<open>
  \<^verbatim>\<open>sr_ukf_parameter_estimation\<close> returns \<^verbatim>\<open>void\<close>. What the caller can observe
  afterwards is the content of the five arrays it passed. The result \<open>Inl\<close> is not a
  value of the C function: it marks a run with a store outside an array, of which C says
  nothing.
\<close>

record arrays =
  arr_d :: buf
  arr_what :: buf
  arr_Re :: buf
  arr_x :: buf
  arr_Sw :: buf

definition sr_ukf_parameter_estimation ::
  "linalg \<Rightarrow> buf \<Rightarrow> buf \<Rightarrow> buf \<Rightarrow> buf \<Rightarrow> transition \<Rightarrow> real \<Rightarrow> buf \<Rightarrow> real \<Rightarrow> real \<Rightarrow> nat
     \<Rightarrow> fault + arrays" where
  "sr_ukf_parameter_estimation c d what Re_cov x G lambda_rls Sw alpha beta L =
     (let N = u8 (2 * L + 1);
          kappa = 3 - real L;
          (Wc, Wm) = create_weights (stack_array N) (stack_array N) alpha beta kappa L
      in case scale_Sw_with_lambda_rls_factor Sw lambda_rls L of
           Inl e \<Rightarrow> Inl e
         | Inr Sw \<Rightarrow>
             (let W = create_sigma_point_matrix (stack_array (L * N)) what Sw alpha kappa L;
                  (D, x) = compute_transistion_function (stack_array (L * N)) W x G L;
                  dhat = multiply_sigma_point_matrix_to_weights (stack_array L) D Wm L;
                  Sd = create_state_estimation_error_covariance_matrix c
                         (stack_array (L * L)) Wc D dhat Re_cov L
              in case create_state_cross_covariance_matrix c
                        (stack_array (L * L)) Wc W D what dhat L of
                   Inl e \<Rightarrow> Inl e
                 | Inr (Pwd, W, D) \<Rightarrow>
                     (let (Sw, what) =
                            update_state_covarariance_matrix_and_state_estimation_vector c
                              Sw what dhat d Sd Pwd L
                      in Inr \<lparr>arr_d = d, arr_what = what, arr_Re = Re_cov, arr_x = x,
                              arr_Sw = Sw\<rparr>)))"

subsection \<open>The specification's description of the measurement-covariance builder\<close>

text \<open>
  The augmented matrix as the specification words it, to be compared with \<open>build_AT\<close>:
  \<open>L\<close> rows of \<open>3L\<close> entries, stored row by row; in row \<open>i\<close>, the entry of a column
  \<open>j < 2L\<close> is \<open>sqrt |Wc[1]| * (D[i, j + 1] - dhat[i])\<close> and the entry of a column
  \<open>2L \<le> j < 3L\<close> is \<open>sqrt (Re[i, j - 2L])\<close>. \<open>D\<close> has \<open>2L + 1\<close> columns and \<open>Re\<close> has \<open>L\<close>.
\<close>

definition spec_AT :: "buf \<Rightarrow> buf \<Rightarrow> buf \<Rightarrow> buf \<Rightarrow> nat \<Rightarrow> buf" where
  "spec_AT Wc D dhat Re_cov L =
     map (\<lambda>k. let i = k div (3 * L); j = k mod (3 * L)
              in if j < 2 * L then sqrt \<bar>Wc ! 1\<bar> * (D ! (i * (2 * L + 1) + (j + 1)) - dhat ! i)
                 else sqrt (Re_cov ! (i * L + (j - 2 * L))))
       [0..<L * (3 * L)]"

text \<open>The centre-column residual \<open>b[i] = D[i, 0] - dhat[i]\<close>.\<close>

definition spec_b :: "buf \<Rightarrow> buf \<Rightarrow> nat \<Rightarrow> buf" where
  "spec_b D dhat L = map (\<lambda>i. D ! (i * (2 * L + 1)) - dhat ! i) [0..<L]"

subsection \<open>Collaborators for concrete runs\<close>

text \<open>
  Modelled from the spec: \<^verbatim>\<open>tran\<close> is declared in \<^verbatim>\<open>control/linalg.h\<close> and its definition is
  missing here; the specification gives it the standard contract of matrix transpose.
  On a row-major \<open>row \<times> column\<close> array the result is the \<open>column \<times> row\<close> array whose entry
  \<open>(j, i)\<close> is the entry \<open>(i, j)\<close> of \<open>A\<close>.
\<close>

definition tran_std :: "buf \<Rightarrow> nat \<Rightarrow> nat \<Rightarrow> buf" where
  "tran_std A row column =
     map (\<lambda>k. A ! ((k mod row) * column + k div row)) [0..<row * column]"

text \<open>
  Modelled from the spec: \<^verbatim>\<open>mul\<close> is declared in \<^verbatim>\<open>control/linalg.h\<close> and its definition is
  missing here; the specification gives it the standard contract of matrix multiply.
  On row-major arrays, the product of a \<open>row_a \<times> column_a\<close> matrix with a
  \<open>column_a \<times> column_b\<close> matrix.
\<close>

definition mul_std :: "buf \<Rightarrow> buf \<Rightarrow> nat \<Rightarrow> nat \<Rightarrow> nat \<Rightarrow> buf" where
  "mul_std A B row_a column_a column_b =
     map (\<lambda>k. sum_list (map (\<lambda>l. A ! ((k div column_b) * column_a + l)
                                  * B ! (l * column_b + k mod column_b))
                          [0..<column_a]))
       [0..<row_a * column_b]"

text \<open>
  Modelled from the spec: \<^verbatim>\<open>qr\<close> is missing here. The stand-in covers the zero matrix only,
  where the contract \<open>A = Q R\<close> fixes the factor: \<open>R\<close> is zero. On any other input it
  returns empty arrays.
\<close>

definition qr_of_zero :: "buf \<Rightarrow> nat \<Rightarrow> nat \<Rightarrow> bool \<Rightarrow> buf \<times> buf" where
  "qr_of_zero A row_a column_a only_R =
     (if list_all (\<lambda>v. v = 0) A
      then (replicate (row_a * row_a) 0, replicate (row_a * column_a) 0)
      else ([], []))"

text \<open>
  Modelled from the spec: \<^verbatim>\<open>inv\<close> is missing here; the specification says that it fails
  if the matrix is singular. The stand-in covers the zero matrix only, which is singular:
  it reports failure and leaves the array as it was. On any other input it returns an
  empty array.
\<close>

definition inv_of_singular :: "buf \<Rightarrow> nat \<Rightarrow> bool \<times> buf" where
  "inv_of_singular A row = (if list_all (\<lambda>v. v = 0) A then (False, A) else (False, []))"

text \<open>
  Modelled from the spec: \<^verbatim>\<open>cholupdate\<close> is missing here; the specification says that it
  adds to, or removes from, the factor the outer product of the vector. The stand-in
  covers the zero vector only, whose outer product is zero: it leaves the factor as it
  was. On any other input it returns an empty array.
\<close>

definition cholupdate_of_zero :: "buf \<Rightarrow> buf \<Rightarrow> nat \<Rightarrow> bool \<Rightarrow> buf" where
  "cholupdate_of_zero S x row rank_one_update = (if list_all (\<lambda>v. v = 0) x then S else [])"

text \<open>
  Modelled from the spec: the five collaborators together, for runs in which \<^verbatim>\<open>qr\<close> and
  \<^verbatim>\<open>inv\<close> meet zero matrices only and \<^verbatim>\<open>cholupdate\<close> zero vectors only.
\<close>

definition degenerate_linalg :: linalg where
  "degenerate_linalg =
     \<lparr>tran = tran_std, mul = mul_std, inv_c = inv_of_singular, qr = qr_of_zero,
      cholupdate = cholupdate_of_zero\<rparr>"

text \<open>
  Modelled from the spec: \<^verbatim>\<open>inv\<close> is missing here. This stand-in covers the identity matrix
  only, whose inverse is the identity: it reports success and leaves the array as it was.
  On any other input it returns an empty array.
\<close>

definition inv_of_identity :: "buf \<Rightarrow> nat \<Rightarrow> bool \<times> buf" where
  "inv_of_identity A row =
     (if A = map (\<lambda>k. if k div row = k mod row then 1 else 0) [0..<row * row]
      then (True, A) else (False, []))"

text \<open>
  Modelled from the spec: the five collaborators together, for runs in which \<^verbatim>\<open>inv\<close> meets
  the identity matrix only.
\<close>

definition identity_linalg :: linalg where
  "identity_linalg =
     \<lparr>tran = tran_std, mul = mul_std, inv_c = inv_of_identity, qr = qr_of_zero,
      cholupdate = cholupdate_of_zero\<rparr>"

text \<open>A transition function that writes zero to every entry of \<^verbatim>\<open>dw\<close> and leaves \<^verbatim>\<open>x\<close>
  and \<^verbatim>\<open>w\<close> as they are.\<close>

definition zero_transition :: transition where
  "zero_transition dw x w = (map (\<lambda>v. 0) dw, x, w)"

subsection \<open>The predicted measurement of a tick\<close>

text \<open>
  The vector \<^verbatim>\<open>dhat\<close> is a local of \<^verbatim>\<open>sr_ukf_parameter_estimation\<close>. To speak of it,
  \<open>predicted_measurement\<close> runs the stages of the tick up to
  \<^verbatim>\<open>multiply_sigma_point_matrix_to_weights\<close>, with the same arguments, and returns it.
\<close>

definition predicted_measurement ::
  "buf \<Rightarrow> buf \<Rightarrow> transition \<Rightarrow> real \<Rightarrow> buf \<Rightarrow> real \<Rightarrow> real \<Rightarrow> nat \<Rightarrow> fault + buf" where
  "predicted_measurement what x G lambda_rls Sw alpha beta L =
     (let N = u8 (2 * L + 1);
          kappa = 3 - real L;
          (Wc, Wm) = create_weights (stack_array N) (stack_array N) alpha beta kappa L
      in case scale_Sw_with_lambda_rls_factor Sw lambda_rls L of
           Inl e \<Rightarrow> Inl e
         | Inr Sw \<Rightarrow>
             (let W = create_sigma_point_matrix (stack_array (L * N)) what Sw alpha kappa L;
                  (D, x) = compute_transistion_function (stack_array (L * N)) W x G L;
                  dhat = multiply_sigma_point_matrix_to_weights (stack_array L) D Wm L
              in Inr dhat))"

subsection \<open>Facts about the loops\<close>

lemma upt_snoc: "a \<le> n \<Longrightarrow> [a..<Suc n] = [a..<n] @ [n]"
  by simp

lemma u8_id: "n < 256 \<Longrightarrow> u8 n = n"
  by (simp add: u8_def)

lemma nth_upd: "(xs[i := x]) ! k = (if i = k \<and> i < length xs then x else xs ! k)"
  by (cases "i < length xs") (auto simp: nth_list_update list_update_beyond)

text \<open>The loop of \<open>create_weights\<close>, run up to any bound \<open>n\<close>.\<close>

lemma weights_loop:
  assumes "fold (\<lambda>i (Wc, Wm). let Wc = Wc[i := v]; Wm = Wm[i := Wc ! i] in (Wc, Wm))
             [1..<n] (Wc, Wm) = (Wc', Wm')"
    and "length Wc = length Wm"
  shows "length Wc' = length Wc \<and> length Wm' = length Wm \<and>
         (\<forall>k. Wc' ! k = (if 1 \<le> k \<and> k < n \<and> k < length Wc then v else Wc ! k)) \<and>
         (\<forall>k. Wm' ! k = (if 1 \<le> k \<and> k < n \<and> k < length Wm then v else Wm ! k))"
  using assms
proof (induction n arbitrary: Wc' Wm')
  case 0
  then show ?case by simp
next
  case (Suc n)
  show ?case
  proof (cases "1 \<le> n")
    case False
    then have "n = 0" by simp
    with Suc.prems show ?thesis by simp
  next
    case True
    obtain Wc1 Wm1 where st:
      "fold (\<lambda>i (Wc, Wm). let Wc = Wc[i := v]; Wm = Wm[i := Wc ! i] in (Wc, Wm))
         [1..<n] (Wc, Wm) = (Wc1, Wm1)"
      by (cases "fold (\<lambda>i (Wc, Wm). let Wc = Wc[i := v]; Wm = Wm[i := Wc ! i] in (Wc, Wm))
                   [1..<n] (Wc, Wm)")
    note ih = Suc.IH [OF st Suc.prems(2)]
    have "[1..<Suc n] = [1..<n] @ [n]"
      using True by (rule upt_snoc)
    with Suc.prems(1) st have eq: "Wc' = Wc1[n := v]" "Wm' = Wm1[n := Wc1[n := v] ! n]"
      by (auto simp: Let_def)
    show ?thesis
      using ih Suc.prems(2) True unfolding eq by (auto simp: nth_upd)
  qed
qed

lemma create_weights_nth:
  assumes L: "L \<le> 127"
    and len: "length Wc0 = 2 * L + 1" "length Wm0 = 2 * L + 1"
    and run: "create_weights Wc0 Wm0 alpha beta kappa L = (Wc, Wm)"
  shows "length Wc = 2 * L + 1 \<and> length Wm = 2 * L + 1 \<and>
         Wm ! 0 = (alpha * alpha * (real L + kappa) - real L)
                    / (real L + (alpha * alpha * (real L + kappa) - real L)) \<and>
         Wc ! 0 = Wm ! 0 + 1 - alpha * alpha + beta \<and>
         (\<forall>i. 1 \<le> i \<and> i \<le> 2 * L \<longrightarrow>
            Wm ! i = 0.5 / (real L + (alpha * alpha * (real L + kappa) - real L)) \<and>
            Wc ! i = 0.5 / (real L + (alpha * alpha * (real L + kappa) - real L)))"
proof -
  have N: "u8 (2 * L + 1) = 2 * L + 1"
    using L by (simp add: u8_id)
  let ?lam = "alpha * alpha * (real L + kappa) - real L"
  let ?Wm1 = "Wm0[0 := ?lam / (real L + ?lam)]"
  let ?Wc1 = "Wc0[0 := ?Wm1 ! 0 + 1 - alpha * alpha + beta]"
  have loop:
    "fold (\<lambda>i (Wc, Wm). let Wc = Wc[i := 0.5 / (real L + ?lam)]; Wm = Wm[i := Wc ! i]
                         in (Wc, Wm))
       [1..<2 * L + 1] (?Wc1, ?Wm1) = (Wc, Wm)"
    using run unfolding create_weights_def N by (simp add: Let_def)
  have "length ?Wc1 = length ?Wm1" using len by simp
  from weights_loop [OF loop this] len show ?thesis
    by (auto simp: nth_upd)
qed

lemma weights_sum_arith:
  fixes lam l :: real
  assumes "l + lam \<noteq> 0"
  shows "lam / (l + lam) + (2 * l) * (0.5 / (l + lam)) = 1"
proof -
  have "(2 * l) * (0.5 / (l + lam)) = l / (l + lam)"
    using assms by (simp add: field_simps)
  then have "lam / (l + lam) + (2 * l) * (0.5 / (l + lam)) = (lam + l) / (l + lam)"
    by (simp only: add_divide_distrib)
  also have "\<dots> = 1"
    using assms by (simp add: add.commute)
  finally show ?thesis .
qed

section \<open>Properties of the stages\<close>

subsection \<open>Weight generator\<close>

text \<open>
  Claim C5. Let \<open>lambda = alpha\<^sup>2 (L + kappa) - L\<close>. For a dimension \<open>L \<le> 127\<close> (so that
  \<open>N = 2L + 1\<close> fits the \<^verbatim>\<open>uint8_t\<close> it is stored in) and arrays \<open>Wc\<close>, \<open>Wm\<close> of \<open>2L + 1\<close>
  entries, \<open>create_weights\<close> leaves \<open>Wm[0] = lambda / (L + lambda)\<close>,
  \<open>Wc[0] = Wm[0] + 1 - alpha\<^sup>2 + beta\<close>, and \<open>Wm[i] = Wc[i] = 0.5 / (L + lambda)\<close> at every
  index \<open>1 \<le> i \<le> 2L\<close>.
\<close>

theorem create_weights_values:
  assumes "L \<le> 127"
    and "length Wc0 = 2 * L + 1" and "length Wm0 = 2 * L + 1"
    and "create_weights Wc0 Wm0 alpha beta kappa L = (Wc, Wm)"
    and "lambda = alpha * alpha * (real L + kappa) - real L"
  shows "Wm ! 0 = lambda / (real L + lambda) \<and>
         Wc ! 0 = Wm ! 0 + 1 - alpha * alpha + beta \<and>
         (\<forall>i. 1 \<le> i \<and> i \<le> 2 * L \<longrightarrow>
            Wm ! i = 0.5 / (real L + lambda) \<and> Wc ! i = 0.5 / (real L + lambda))"
  using create_weights_nth [OF assms(1-4)] assms(5) by simp

text \<open>At \<open>L = 1\<close>, \<open>alpha = 1\<close>, \<open>beta = 2\<close>, \<open>kappa = 2\<close>: \<open>lambda = 2\<close>, and the weights are
  \<open>Wm = [2/3, 1/6, 1/6]\<close>, \<open>Wc = [8/3, 1/6, 1/6]\<close>.\<close>

theorem create_weights_values_witness:
  "(1::nat) \<le> 127 \<and>
   snd (create_weights [0, 0, 0] [0, 0, 0] 1 2 2 1) ! 0 = 2 / 3 \<and>
   fst (create_weights [0, 0, 0] [0, 0, 0] 1 2 2 1) ! 0 = 8 / 3 \<and>
   snd (create_weights [0, 0, 0] [0, 0, 0] 1 2 2 1) ! 1 = 1 / 6 \<and>
   fst (create_weights [0, 0, 0] [0, 0, 0] 1 2 2 1) ! 2 = 1 / 6"
  using create_weights_values [of 1 "[0, 0, 0]" "[0, 0, 0]" 1 2 2
      "fst (create_weights [0, 0, 0] [0, 0, 0] 1 2 2 1)"
      "snd (create_weights [0, 0, 0] [0, 0, 0] 1 2 2 1)" 2]
  by simp

text \<open>
  Claim C6. For \<open>L \<le> 127\<close> with \<open>L + lambda \<noteq> 0\<close>, the \<open>2L + 1\<close> entries of \<open>Wm\<close> sum to
  \<open>1\<close> (in the arithmetic of the reals), and \<open>Wc[j] = Wm[j]\<close> at every index
  \<open>1 \<le> j \<le> 2L\<close>.
\<close>

theorem create_weights_normalised:
  assumes "L \<le> 127"
    and "length Wc0 = 2 * L + 1" and "length Wm0 = 2 * L + 1"
    and "create_weights Wc0 Wm0 alpha beta kappa L = (Wc, Wm)"
    and "real L + (alpha * alpha * (real L + kappa) - real L) \<noteq> 0"
  shows "(\<Sum>j = 0..2 * L. Wm ! j) = 1 \<and> (\<forall>j. 1 \<le> j \<and> j \<le> 2 * L \<longrightarrow> Wc ! j = Wm ! j)"
proof -
  let ?lam = "alpha * alpha * (real L + kappa) - real L"
  note w = create_weights_nth [OF assms(1-4)]
  have rest: "(\<Sum>j = 1..2 * L. Wm ! j) = (\<Sum>j = 1..2 * L. 0.5 / (real L + ?lam))"
    using w by (intro sum.cong) auto
  have "(\<Sum>j = 0..2 * L. Wm ! j) = Wm ! 0 + (\<Sum>j = 1..2 * L. Wm ! j)"
    by (simp add: sum.atLeast_Suc_atMost)
  also have "\<dots> = ?lam / (real L + ?lam) + real (2 * L) * (0.5 / (real L + ?lam))"
    using w rest by simp
  also have "\<dots> = ?lam / (real L + ?lam) + (2 * real L) * (0.5 / (real L + ?lam))"
    by (simp only: of_nat_mult of_nat_numeral)
  also have "\<dots> = 1"
    using assms(5) by (rule weights_sum_arith)
  finally show ?thesis using w by simp
qed

theorem create_weights_normalised_witness:
  "(1::nat) \<le> 127 \<and>
   (\<Sum>j = 0..2 * 1. snd (create_weights [0, 0, 0] [0, 0, 0] 1 2 2 1) ! j) = 1 \<and>
   fst (create_weights [0, 0, 0] [0, 0, 0] 1 2 2 1) ! 1 =
   snd (create_weights [0, 0, 0] [0, 0, 0] 1 2 2 1) ! 1"
  using create_weights_normalised [of 1 "[0, 0, 0]" "[0, 0, 0]" 1 2 2
      "fst (create_weights [0, 0, 0] [0, 0, 0] 1 2 2 1)"
      "snd (create_weights [0, 0, 0] [0, 0, 0] 1 2 2 1)"]
  by simp

subsection \<open>Covariance scaler\<close>

lemma scale_step_Inl: "scale_step c i (Inl e) = Inl e"
  by (simp add: scale_step_def)

lemma scale_step_Inr: "scale_step c i (Inr Sw) = store Sw i (Sw ! i * c)"
  by (simp add: scale_step_def)

lemma scale_loop_Suc:
  "fold (scale_step c) [0..<Suc n] r = scale_step c n (fold (scale_step c) [0..<n] r)"
  by simp

lemma scale_loop_ok:
  "n \<le> length Sw \<Longrightarrow>
   \<exists>Sw'. fold (scale_step c) [0..<n] (Inr Sw) = Inr Sw' \<and>
         length Sw' = length Sw \<and>
         (\<forall>k. Sw' ! k = (if k < n then Sw ! k * c else Sw ! k))"
proof (induction n)
  case 0
  then show ?case by simp
next
  case (Suc n)
  then obtain Sw1 where
    run: "fold (scale_step c) [0..<n] (Inr Sw) = Inr Sw1"
    and len: "length Sw1 = length Sw"
    and nth: "\<forall>k. Sw1 ! k = (if k < n then Sw ! k * c else Sw ! k)"
    by auto
  have "fold (scale_step c) [0..<Suc n] (Inr Sw) = Inr (Sw1[n := Sw1 ! n * c])"
    unfolding scale_loop_Suc run using len Suc.prems
    by (simp add: store_def scale_step_Inr scale_step_Inl)
  moreover have "\<forall>k. (Sw1[n := Sw1 ! n * c]) ! k = (if k < Suc n then Sw ! k * c else Sw ! k)"
    using nth len Suc.prems by (auto simp: nth_upd less_Suc_eq)
  ultimately show ?case using len by simp
qed

lemma scale_loop_fault:
  "length Sw < n \<Longrightarrow>
   fold (scale_step c) [0..<n] (Inr Sw) = Inl (OutOfBounds (length Sw))"
proof (induction n)
  case 0
  then show ?case by simp
next
  case (Suc n)
  show ?case
  proof (cases "length Sw < n")
    case True
    with Suc.IH show ?thesis unfolding scale_loop_Suc by (simp add: scale_step_Inl)
  next
    case False
    with Suc.prems have n: "n = length Sw" by simp
    from scale_loop_ok [of n Sw c] n obtain Sw1 where
      "fold (scale_step c) [0..<n] (Inr Sw) = Inr Sw1" "length Sw1 = length Sw"
      by auto
    then show ?thesis
      unfolding scale_loop_Suc n by (simp add: store_def scale_step_Inr scale_step_Inl)
  qed
qed

text \<open>
  Claim C4. For every dimension \<open>L \<ge> 2\<close> and an array \<open>Sw\<close> of \<open>L * L\<close> entries, every
  store of the scaler is inside the array: the run ends without a fault. For \<open>L = 1\<close> and
  an array of one entry, the scaler stores at index 1, outside the array.
\<close>

theorem scale_Sw_index_range:
  "(2 \<le> L \<and> length Sw = L * L \<longrightarrow>
      (\<exists>Sw'. scale_Sw_with_lambda_rls_factor Sw lambda_rls L = Inr Sw')) \<and>
   (length Sw = 1 \<longrightarrow>
      scale_Sw_with_lambda_rls_factor Sw lambda_rls 1 = Inl (OutOfBounds 1))"
proof (intro conjI impI)
  assume a: "2 \<le> L \<and> length Sw = L * L"
  have "u8 (2 * L) \<le> 2 * L" by (simp add: u8_def)
  also have "\<dots> \<le> L * L" using a by simp
  finally have "u8 (2 * L) \<le> length Sw" using a by simp
  from scale_loop_ok [OF this]
  show "\<exists>Sw'. scale_Sw_with_lambda_rls_factor Sw lambda_rls L = Inr Sw'"
    unfolding scale_Sw_with_lambda_rls_factor_def Let_def by blast
next
  assume "length Sw = 1"
  then have "length Sw < u8 (2 * 1)" by (simp add: u8_def)
  from scale_loop_fault [OF this] \<open>length Sw = 1\<close>
  show "scale_Sw_with_lambda_rls_factor Sw lambda_rls 1 = Inl (OutOfBounds 1)"
    unfolding scale_Sw_with_lambda_rls_factor_def Let_def by simp
qed

theorem scale_Sw_index_range_witness:
  "(\<exists>Sw'. scale_Sw_with_lambda_rls_factor [1, 0, 0, 1] (1 / 4) 2 = Inr Sw') \<and>
   scale_Sw_with_lambda_rls_factor [1] (1 / 4) 1 = Inl (OutOfBounds 1)"
  using scale_Sw_index_range [of 2 "[1, 0, 0, 1]" "1 / 4"]
        scale_Sw_index_range [of 1 "[1]" "1 / 4"]
  by simp

text \<open>
  Claim C8. For \<open>L \<le> 127\<close> (so that \<open>M = 2L\<close> fits its \<^verbatim>\<open>uint8_t\<close>) and an array that holds
  at least \<open>2L\<close> entries, the scaler multiplies each of the first \<open>2L\<close> entries by
  \<open>1 / sqrt lambda_rls\<close> and leaves every entry at an index \<open>\<ge> 2L\<close> as it was.
\<close>

theorem scale_Sw_prefix:
  assumes "L \<le> 127" and "2 * L \<le> length Sw"
  shows "\<exists>Sw'. scale_Sw_with_lambda_rls_factor Sw lambda_rls L = Inr Sw' \<and>
           length Sw' = length Sw \<and>
           (\<forall>i. i < 2 * L \<longrightarrow> Sw' ! i = Sw ! i * (1 / sqrt lambda_rls)) \<and>
           (\<forall>i. 2 * L \<le> i \<and> i < length Sw \<longrightarrow> Sw' ! i = Sw ! i)"
proof -
  have M: "u8 (2 * L) = 2 * L" using assms(1) by (simp add: u8_id)
  from scale_loop_ok [OF assms(2), of "1 / sqrt lambda_rls"] show ?thesis
    unfolding scale_Sw_with_lambda_rls_factor_def Let_def M by auto
qed

theorem scale_Sw_prefix_witness:
  "\<exists>Sw'. scale_Sw_with_lambda_rls_factor [1, 2, 3, 4, 5, 6, 7, 8, 9] (1 / 4) 3 = Inr Sw' \<and>
         Sw' ! 0 = 2 \<and> Sw' ! 5 = 12 \<and> Sw' ! 6 = 7 \<and> Sw' ! 8 = 9"
  using scale_Sw_prefix [of 3 "[1, 2, 3, 4, 5, 6, 7, 8, 9]" "1 / 4"]
  by (auto simp: real_sqrt_divide)

subsection \<open>Loops that fill a matrix column by column\<close>

text \<open>A cell \<open>i * Wd + j\<close> with \<open>j < Wd\<close> is found again from its index by \<open>div\<close>
  and \<open>mod\<close>; the inner loop fills one column, the outer loop a range of columns.\<close>

lemma cell_index:
  fixes i j k Wd :: nat
  assumes "j < Wd"
  shows "i * Wd + j = k \<longleftrightarrow> k mod Wd = j \<and> k div Wd = i"
proof
  assume "i * Wd + j = k"
  then have k: "k = j + i * Wd" by (simp add: add.commute)
  show "k mod Wd = j \<and> k div Wd = i"
    unfolding k using assms by simp
next
  assume "k mod Wd = j \<and> k div Wd = i"
  then show "i * Wd + j = k"
    using div_mult_mod_eq [of k Wd] by simp
qed

lemma col_loop:
  assumes "j < Wd"
  shows "length (fold (\<lambda>i b. b[i * Wd + j := f i]) [0..<n] b) = length b \<and>
         fold (\<lambda>i b. b[i * Wd + j := f i]) [0..<n] b ! k =
           (if k < length b \<and> k mod Wd = j \<and> k div Wd < n then f (k div Wd) else b ! k)"
proof (induction n)
  case 0
  show ?case by simp
next
  case (Suc n)
  have step: "fold (\<lambda>i b. b[i * Wd + j := f i]) [0..<Suc n] b
              = (fold (\<lambda>i b. b[i * Wd + j := f i]) [0..<n] b)[n * Wd + j := f n]"
    by simp
  show ?case
    unfolding step using Suc cell_index [OF assms, of n k]
    by (auto simp: nth_upd less_Suc_eq)
qed

lemma cols_loop:
  assumes "c \<le> Wd"
  shows "length (fold (\<lambda>j. fold (\<lambda>i b. b[i * Wd + j := f i j]) [0..<n]) [a..<c] b) = length b \<and>
         fold (\<lambda>j. fold (\<lambda>i b. b[i * Wd + j := f i j]) [0..<n]) [a..<c] b ! k =
           (if k < length b \<and> a \<le> k mod Wd \<and> k mod Wd < c \<and> k div Wd < n
            then f (k div Wd) (k mod Wd) else b ! k)"
  using assms
proof (induction c)
  case 0
  show ?case by simp
next
  case (Suc c)
  show ?case
  proof (cases "a \<le> c")
    case False
    then show ?thesis by auto
  next
    case True
    have c: "c < Wd" "c \<le> Wd" using Suc.prems by simp_all
    note ih = Suc.IH [OF c(2)]
    let ?b = "fold (\<lambda>j. fold (\<lambda>i b. b[i * Wd + j := f i j]) [0..<n]) [a..<c] b"
    have step: "fold (\<lambda>j. fold (\<lambda>i b. b[i * Wd + j := f i j]) [0..<n]) [a..<Suc c] b
                = fold (\<lambda>i b. b[i * Wd + c := f i c]) [0..<n] ?b"
      using True by simp
    show ?thesis
      unfolding step using col_loop [OF c(1), of "\<lambda>i. f i c" n ?b k] ih True
      by (auto simp: less_Suc_eq)
  qed
qed

subsection \<open>Sigma-point generator\<close>

lemma create_sigma_point_matrix_nth:
  assumes L: "L \<le> 127"
  shows "length (create_sigma_point_matrix W0 what Sw alpha kappa L) = length W0 \<and>
         create_sigma_point_matrix W0 what Sw alpha kappa L ! k =
           (if k < length W0 \<and> k div (2 * L + 1) < L then
              (if k mod (2 * L + 1) = 0 then what ! (k div (2 * L + 1))
               else if k mod (2 * L + 1) < L + 1 then
                 what ! (k div (2 * L + 1))
                 + sqrt (real L + (alpha * alpha * (real L + kappa) - real L))
                   * Sw ! (k div (2 * L + 1) * L + k mod (2 * L + 1) - 1)
               else
                 what ! (k div (2 * L + 1))
                 - sqrt (real L + (alpha * alpha * (real L + kappa) - real L))
                   * Sw ! (k div (2 * L + 1) * L + k mod (2 * L + 1) - (L + 1)))
            else W0 ! k)"
proof -
  define N where "N = 2 * L + 1"
  define K where "K = L + 1"
  define gamma where "gamma = sqrt (real L + (alpha * alpha * (real L + kappa) - real L))"
  have uN: "u8 (2 * L + 1) = N" and uK: "u8 (L + 1) = K"
    using L by (simp_all add: u8_id N_def K_def)
  have bounds: "0 < N" "K \<le> N" "N \<le> N" "k mod N < N"
    by (simp_all add: N_def K_def)
  let ?W1 = "fold (\<lambda>i W. W[i * N := what ! i]) [0..<L] W0"
  let ?W2 = "fold (\<lambda>j. fold (\<lambda>i W. W[i * N + j := what ! i + gamma * Sw ! (i * L + j - 1)])
                          [0..<L]) [1..<K] ?W1"
  let ?W3 = "fold (\<lambda>j. fold (\<lambda>i W. W[i * N + j := what ! i - gamma * Sw ! (i * L + j - K)])
                          [0..<L]) [K..<N] ?W2"
  have def: "create_sigma_point_matrix W0 what Sw alpha kappa L = ?W3"
    by (simp only: create_sigma_point_matrix_def Let_def uN uK gamma_def)
  from col_loop [OF bounds(1), of "\<lambda>i. what ! i" L W0 k]
  have W1: "length ?W1 = length W0"
    "?W1 ! k = (if k < length W0 \<and> k mod N = 0 \<and> k div N < L then what ! (k div N) else W0 ! k)"
    by simp_all
  from cols_loop [OF bounds(2), of "\<lambda>i j. what ! i + gamma * Sw ! (i * L + j - 1)" L 1 ?W1 k]
  have W2: "length ?W2 = length ?W1"
    "?W2 ! k = (if k < length ?W1 \<and> 1 \<le> k mod N \<and> k mod N < K \<and> k div N < L
                then what ! (k div N) + gamma * Sw ! (k div N * L + k mod N - 1) else ?W1 ! k)"
    by simp_all
  from cols_loop [OF bounds(3), of "\<lambda>i j. what ! i - gamma * Sw ! (i * L + j - K)" L K ?W2 k]
  have W3: "length ?W3 = length ?W2"
    "?W3 ! k = (if k < length ?W2 \<and> K \<le> k mod N \<and> k mod N < N \<and> k div N < L
                then what ! (k div N) - gamma * Sw ! (k div N * L + k mod N - K) else ?W2 ! k)"
    by simp_all
  have len: "length ?W3 = length W0"
    using W1(1) W2(1) W3(1) by simp
  have "?W3 ! k =
          (if k < length W0 \<and> k div N < L then
              (if k mod N = 0 then what ! (k div N)
               else if k mod N < K then what ! (k div N) + gamma * Sw ! (k div N * L + k mod N - 1)
               else what ! (k div N) - gamma * Sw ! (k div N * L + k mod N - K))
            else W0 ! k)"
    unfolding W3(2) W2 W1 using bounds(4) by (auto simp: K_def)
  with len show ?thesis
    unfolding def N_def K_def gamma_def by simp
qed

lemma cell_in_row:
  fixes i j N :: nat
  assumes "i < L" and "j < N"
  shows "i * N + j < L * N \<and> (i * N + j) div N = i \<and> (i * N + j) mod N = j"
proof -
  have "i * N + j < i * N + N" using assms(2) by simp
  also have "\<dots> = Suc i * N" by simp
  also have "\<dots> \<le> L * N" using assms(1) by (intro mult_le_mono1) simp
  finally show ?thesis using assms(2) by simp
qed

text \<open>
  Claim C7. With \<open>kappa = 3 - L\<close>, \<open>lambda = alpha\<^sup>2 (L + kappa) - L\<close> and
  \<open>gamma = sqrt (L + lambda)\<close>, for \<open>L \<le> 127\<close> and a buffer \<open>W\<close> of \<open>L * (2L + 1)\<close> entries,
  the generator leaves in every row \<open>i < L\<close>: column 0 equal to \<open>what[i]\<close>, columns
  \<open>j = 1 .. L\<close> equal to \<open>what[i] + gamma * Sw[i, j - 1]\<close>, and columns \<open>j = L + 1 .. 2L\<close>
  equal to \<open>what[i] - gamma * Sw[i, j - L - 1]\<close>.
\<close>

theorem sigma_point_columns:
  assumes "L \<le> 127" and "length W0 = L * (2 * L + 1)" and "i < L"
    and "lambda = alpha * alpha * (real L + (3 - real L)) - real L"
    and "gamma = sqrt (real L + lambda)"
    and "W = create_sigma_point_matrix W0 what Sw alpha (3 - real L) L"
  shows "W ! (i * (2 * L + 1)) = what ! i \<and>
         (\<forall>j. 1 \<le> j \<and> j \<le> L \<longrightarrow>
            W ! (i * (2 * L + 1) + j) = what ! i + gamma * Sw ! (i * L + (j - 1))) \<and>
         (\<forall>j. L + 1 \<le> j \<and> j \<le> 2 * L \<longrightarrow>
            W ! (i * (2 * L + 1) + j) = what ! i - gamma * Sw ! (i * L + (j - L - 1)))"
proof -
  define N where "N = 2 * L + 1"
  have cell: "i * N + j < length W0 \<and> (i * N + j) div N = i \<and> (i * N + j) mod N = j"
    if "j < N" for j
    using cell_in_row [OF assms(3) that] assms(2) by (simp add: N_def)
  note nth = create_sigma_point_matrix_nth [OF assms(1), of W0 what Sw alpha "3 - real L",
      THEN conjunct2, folded N_def]
  have c0: "W ! (i * N) = what ! i"
    using cell [of 0] assms(3) unfolding assms(6) nth by (simp add: N_def)
  have c1: "W ! (i * N + j) = what ! i + gamma * Sw ! (i * L + (j - 1))"
    if "1 \<le> j \<and> j \<le> L" for j
  proof -
    have "j < N" using that by (simp add: N_def)
    from cell [OF this] that assms(3) show ?thesis
      unfolding assms(6) nth assms(5) assms(4) by simp
  qed
  have c2: "W ! (i * N + j) = what ! i - gamma * Sw ! (i * L + (j - L - 1))"
    if "L + 1 \<le> j \<and> j \<le> 2 * L" for j
  proof -
    have "j < N" using that by (simp add: N_def)
    from cell [OF this] that assms(3) show ?thesis
      unfolding assms(6) nth assms(5) assms(4) by simp
  qed
  show ?thesis
    using c0 c1 c2 unfolding N_def by blast
qed

theorem sigma_point_columns_witness:
  "(1::nat) \<le> 127 \<and>
   create_sigma_point_matrix [0, 0, 0] [5] [2] 1 (3 - real 1) 1 ! 0 = 5 \<and>
   create_sigma_point_matrix [0, 0, 0] [5] [2] 1 (3 - real 1) 1 ! 1 = 5 + sqrt 3 * 2 \<and>
   create_sigma_point_matrix [0, 0, 0] [5] [2] 1 (3 - real 1) 1 ! 2 = 5 - sqrt 3 * 2"
  using sigma_point_columns [of 1 "[0, 0, 0]" 0 2 1 "sqrt 3"
      "create_sigma_point_matrix [0, 0, 0] [5] [2] 1 (3 - real 1) 1" "[5]" "[2]"]
  by simp

subsection \<open>Loops that fill a vector\<close>

lemma vec_loop:
  "n \<le> length b \<Longrightarrow> fold (\<lambda>i b. b[i := f i]) [0..<n] b = map f [0..<n] @ drop n b"
proof (induction n)
  case 0
  show ?case by simp
next
  case (Suc n)
  then have n: "n < length b" by simp
  have "fold (\<lambda>i b. b[i := f i]) [0..<Suc n] b = (map f [0..<n] @ drop n b)[n := f n]"
    using Suc by simp
  also have "\<dots> = map f [0..<n] @ (drop n b)[0 := f n]"
    by (simp add: list_update_append)
  also have "drop n b = b ! n # drop (Suc n) b"
    using n by (simp add: Cons_nth_drop_Suc)
  finally show ?case by simp
qed

lemma vec_loop_full:
  "length b = n \<Longrightarrow> fold (\<lambda>i b. b[i := f i]) [0..<n] b = map f [0..<n]"
  using vec_loop [of n b f] by simp

subsection \<open>Measurement-covariance builder\<close>

lemma build_b_eq: "L \<le> 127 \<Longrightarrow> build_b D dhat L = spec_b D dhat L"
  by (simp add: build_b_def spec_b_def Let_def u8_id stack_array_def vec_loop_full)

lemma memcpy_floats_full:
  "length dst = n \<Longrightarrow> memcpy_floats dst src n = map (\<lambda>k. src ! k) [0..<n]"
  unfolding memcpy_floats_def by (rule vec_loop_full)

lemma build_AT_eq:
  assumes L: "L \<le> 85"
  shows "build_AT Wc D dhat Re_cov L = spec_AT Wc D dhat Re_cov L"
proof -
  define N where "N = 2 * L + 1"
  define M where "M = 3 * L"
  define K where "K = 2 * L"
  define w1 where "w1 = sqrt \<bar>Wc ! 1\<bar>"
  have u: "u8 (2 * L + 1) = N" "u8 (2 * L + L) = M" "u8 (2 * L) = K"
    using L by (simp_all add: u8_id N_def M_def K_def)
  have bounds: "K \<le> M" "M \<le> M"
    by (simp_all add: M_def K_def)
  let ?A0 = "stack_array (L * M)"
  let ?A1 = "fold (\<lambda>j. fold (\<lambda>i AT. AT[i * M + j := w1 * (D ! (i * N + j + 1) - dhat ! i)])
                          [0..<L]) [0..<K] ?A0"
  let ?A2 = "fold (\<lambda>j. fold (\<lambda>i AT. AT[i * M + j := sqrt (Re_cov ! (i * L + j - K))])
                          [0..<L]) [K..<M] ?A1"
  have def: "build_AT Wc D dhat Re_cov L = ?A2"
    by (simp only: build_AT_def Let_def u w1_def)
  have A1: "length ?A1 = length ?A0"
    "?A1 ! k = (if k < length ?A0 \<and> 0 \<le> k mod M \<and> k mod M < K \<and> k div M < L
                then w1 * (D ! (k div M * N + k mod M + 1) - dhat ! (k div M)) else ?A0 ! k)" for k
    using cols_loop [OF bounds(1), of "\<lambda>i j. w1 * (D ! (i * N + j + 1) - dhat ! i)" L 0 ?A0 k]
    by simp_all
  have A2: "length ?A2 = length ?A1"
    "?A2 ! k = (if k < length ?A1 \<and> K \<le> k mod M \<and> k mod M < M \<and> k div M < L
                then sqrt (Re_cov ! (k div M * L + k mod M - K)) else ?A1 ! k)" for k
    using cols_loop [OF bounds(2), of "\<lambda>i j. sqrt (Re_cov ! (i * L + j - K))" L K ?A1 k]
    by simp_all
  have len: "length ?A2 = L * M"
    unfolding A2(1) A1(1) by (simp add: stack_array_def)
  have nth: "?A2 ! k =
      (if k mod M < K then w1 * (D ! (k div M * N + (k mod M + 1)) - dhat ! (k div M))
       else sqrt (Re_cov ! (k div M * L + (k mod M - K))))" if k: "k < L * M" for k
  proof -
    have "0 < M" using k by (cases M) simp_all
    then have m: "k mod M < M" by simp
    have d: "k div M < L" using k \<open>0 < M\<close>
      by (simp add: less_mult_imp_div_less)
    show ?thesis
      unfolding A2(2) A1 using k m d by (auto simp: stack_array_def add.assoc)
  qed
  show ?thesis
    unfolding def
  proof (rule nth_equalityI)
    show "length ?A2 = length (spec_AT Wc D dhat Re_cov L)"
      using len by (simp add: spec_AT_def M_def)
  next
    fix k assume "k < length ?A2"
    then have k: "k < L * M" using len by simp
    show "?A2 ! k = spec_AT Wc D dhat Re_cov L ! k"
      using nth [OF k] k by (simp add: spec_AT_def M_def K_def N_def w1_def Let_def)
  qed
qed


text \<open>Rules that evaluate the definitions on concrete arrays.\<close>

lemma replicate_unroll: "0 < n \<Longrightarrow> replicate n x = x # replicate (n - 1) x"
  by (cases n) simp_all

lemma update_unroll: "0 < i \<Longrightarrow> (x # xs)[i := y] = x # xs[i - 1 := y]"
  by (cases i) simp_all

lemmas eval_simps = u8_def stack_array_def upt_rec store_def scale_step_def
  memset_zero_def memcpy_floats_def tran_std_def mul_std_def qr_of_zero_def inv_of_singular_def
  cholupdate_of_zero_def degenerate_linalg_def zero_transition_def real_sqrt_divide
  replicate_unroll update_unroll

text \<open>
  Claim C2. For \<open>L \<le> 85\<close> (so that \<open>M = 3L\<close> fits its \<^verbatim>\<open>uint8_t\<close>) and an array \<open>Sd\<close> of
  \<open>L * L\<close> entries: the matrix the builder hands to \<^verbatim>\<open>tran\<close> and then to \<^verbatim>\<open>qr\<close> is the
  augmented matrix \<open>spec_AT\<close> of the specification (first \<open>2L\<close> columns
  \<open>sqrt |Wc[1]| * (D[i, j + 1] - dhat[i])\<close>, last \<open>L\<close> columns \<open>sqrt (Re[i, j - 2L])\<close>); the
  first \<open>L * L\<close> entries of the factor \<open>R\<close>, which has \<open>L\<close> columns, are its leading
  \<open>L \<times> L\<close> block; and the result \<open>Sd\<close> is one \<^verbatim>\<open>cholupdate\<close> of that block with the vector
  \<open>b[i] = D[i, 0] - dhat[i]\<close>, an update when \<open>0 \<le> Wc[0]\<close> and a downdate when
  \<open>Wc[0] < 0\<close>.
\<close>

theorem measurement_covariance_builder:
  assumes "L \<le> 85" and "length Sd0 = L * L"
    and "R = snd (qr c (tran c (spec_AT Wc D dhat Re_cov L) L (3 * L)) (3 * L) L True)"
  shows "create_state_estimation_error_covariance_matrix c Sd0 Wc D dhat Re_cov L =
         cholupdate c (map (\<lambda>k. R ! k) [0..<L * L]) (spec_b D dhat L) L (0 \<le> Wc ! 0)"
proof -
  have M: "u8 (2 * L + L) = 3 * L"
    using assms(1) by (simp add: u8_id)
  have b: "build_b D dhat L = spec_b D dhat L"
    using assms(1) by (intro build_b_eq) simp
  have flag: "(if Wc ! 0 < 0 then False else True) = (0 \<le> Wc ! 0)"
    by auto
  show ?thesis
    unfolding create_state_estimation_error_covariance_matrix_def Let_def M
      build_AT_eq [OF assms(1)] b flag assms(3)
    by (simp add: split_def memcpy_floats_full [OF assms(2)])
qed

theorem measurement_covariance_builder_witness:
  "(1::nat) \<le> 85 \<and>
   spec_AT [8 / 3, 1 / 6, 1 / 6] [2, 2, 2] [2] [0] 1 = [0, 0, 0] \<and>
   spec_b [2, 2, 2] [2] 1 = [0] \<and>
   create_state_estimation_error_covariance_matrix degenerate_linalg [0]
     [8 / 3, 1 / 6, 1 / 6] [2, 2, 2] [2] [0] 1 = [0]"
  using measurement_covariance_builder [of 1 "[0]"
      "snd (qr degenerate_linalg
              (tran degenerate_linalg (spec_AT [8 / 3, 1 / 6, 1 / 6] [2, 2, 2] [2] [0] 1) 1 (3 * 1))
              (3 * 1) 1 True)"
      degenerate_linalg "[8 / 3, 1 / 6, 1 / 6]" "[2, 2, 2]" "[2]" "[0]"]
  by (simp add: spec_AT_def spec_b_def eval_simps)

subsection \<open>Corrector\<close>

text \<open>The loop \<^verbatim>\<open>what[i] = what[i] + Kd[i]\<close>, the loop over the columns of \<open>U\<close>.\<close>

lemma acc_loop:
  "n \<le> length b \<Longrightarrow>
   fold (\<lambda>i b. b[i := b ! i + g i]) [0..<n] b = map (\<lambda>i. b ! i + g i) [0..<n] @ drop n b"
proof (induction n)
  case 0
  show ?case by simp
next
  case (Suc n)
  then have n: "n < length b" by simp
  let ?p = "map (\<lambda>i. b ! i + g i) [0..<n]"
  have at_n: "(?p @ drop n b) ! n = b ! n"
    using n by (simp add: nth_append)
  have "fold (\<lambda>i b. b[i := b ! i + g i]) [0..<Suc n] b
        = (?p @ drop n b)[n := (?p @ drop n b) ! n + g n]"
    using Suc by simp
  also have "\<dots> = ?p @ (drop n b)[0 := b ! n + g n]"
    unfolding at_n by (simp add: list_update_append)
  also have "drop n b = b ! n # drop (Suc n) b"
    using n by (simp add: Cons_nth_drop_Suc)
  finally show ?case by simp
qed

lemma acc_loop_full:
  "length b = n \<Longrightarrow> fold (\<lambda>i b. b[i := b ! i + g i]) [0..<n] b = map (\<lambda>i. b ! i + g i) [0..<n]"
  using acc_loop [of n b g] by simp

lemma acc_loop_zero:
  "\<forall>i<n. g i = (0::real) \<Longrightarrow> fold (\<lambda>i b. b[i := b ! i + g i]) [0..<n] b = b"
  by (induction n) simp_all

lemma downdate_loop:
  assumes "length Uk0 = L"
  shows "\<exists>Uk. length Uk = L \<and>
           fold (\<lambda>j (Sw, Uk).
                   let Uk = fold (\<lambda>i Uk. Uk[i := U ! (i * L + j)]) [0..<L] Uk
                   in (cholupdate c Sw Uk L False, Uk))
             [0..<n] (Sw, Uk0)
           = (foldl (\<lambda>S j. cholupdate c S (map (\<lambda>i. U ! (i * L + j)) [0..<L]) L False) Sw [0..<n], Uk)"
proof -
  define step where
    "step = (\<lambda>j (Sw, Uk).
               let Uk = fold (\<lambda>i Uk. Uk[i := U ! (i * L + j)]) [0..<L] Uk
               in (cholupdate c Sw Uk L False, Uk))"
  define col where "col = (\<lambda>j. map (\<lambda>i. U ! (i * L + j)) [0..<L])"
  have step: "step j (S, Uk) = (cholupdate c S (col j) L False, col j)"
    if "length Uk = L" for j S Uk
    using that by (simp add: step_def col_def Let_def vec_loop_full)
  have "\<exists>Uk. length Uk = L \<and>
          fold step [0..<n] (Sw, Uk0) = (foldl (\<lambda>S j. cholupdate c S (col j) L False) Sw [0..<n], Uk)"
  proof (induction n)
    case 0
    show ?case using assms by simp
  next
    case (Suc n)
    then obtain Uk where Uk: "length Uk = L"
      and run: "fold step [0..<n] (Sw, Uk0)
                = (foldl (\<lambda>S j. cholupdate c S (col j) L False) Sw [0..<n], Uk)"
      by blast
    have "fold step [0..<Suc n] (Sw, Uk0) = step n (fold step [0..<n] (Sw, Uk0))"
      by simp
    also have "\<dots> = (foldl (\<lambda>S j. cholupdate c S (col j) L False) Sw [0..<Suc n], col n)"
      unfolding run step [OF Uk] by simp
    finally show ?case
      by (intro exI [of _ "col n"]) (simp add: col_def)
  qed
  then show ?thesis
    unfolding step_def col_def .
qed

text \<open>
  Claim C3. For arrays \<open>what\<close> of \<open>L\<close> and \<open>Sd\<close> of \<open>L * L\<close> entries the corrector computes
  \<open>K\<close> as \<^verbatim>\<open>mul\<close> of \<open>Pwd\<close> with what \<^verbatim>\<open>inv\<close> leaves of the product \<open>Sd\<^sup>T Sd\<close> (the product of
  \<^verbatim>\<open>tran\<close> of \<open>Sd\<close> with \<open>Sd\<close>; a call of the full inverse, no triangular solve), sets
  \<open>what[i] := what[i] + Kd[i]\<close> for \<open>Kd = K (d - dhat)\<close>, forms \<open>U = K Sd\<close>, and applies to
  \<open>Sw\<close> exactly \<open>L\<close> calls of \<^verbatim>\<open>cholupdate\<close> with the flag \<^verbatim>\<open>false\<close> (downdates), the
  \<open>j\<close>-th with column \<open>j\<close> of \<open>U\<close>, for \<open>j = 0, \<dots>, L - 1\<close> in this order.
\<close>

theorem corrector_steps:
  assumes "length what = L" and "length Sd = L * L"
    and "K = mul c Pwd (snd (inv_c c (mul c (tran c Sd L L) Sd L L L) L)) L L L"
    and "Kd = mul c K (map (\<lambda>i. d ! i - dhat ! i) [0..<L]) L L 1"
    and "U = mul c K Sd L L L"
  shows "update_state_covarariance_matrix_and_state_estimation_vector c Sw what dhat d Sd Pwd L =
           (foldl (\<lambda>S j. cholupdate c S (map (\<lambda>i. U ! (i * L + j)) [0..<L]) L False) Sw [0..<L],
            map (\<lambda>i. what ! i + Kd ! i) [0..<L])"
proof -
  have "memcpy_floats (stack_array (L * L)) Sd (L * L) = map (\<lambda>k. Sd ! k) [0..<L * L]"
    by (simp add: memcpy_floats_full stack_array_def)
  also have "\<dots> = Sd"
    unfolding assms(2) [symmetric] by (rule map_nth)
  finally have SdT: "memcpy_floats (stack_array (L * L)) Sd (L * L) = Sd" .
  have ddhat: "fold (\<lambda>i ddhat. ddhat[i := d ! i - dhat ! i]) [0..<L] (stack_array L)
               = map (\<lambda>i. d ! i - dhat ! i) [0..<L]"
    by (simp add: vec_loop_full stack_array_def)
  have w: "fold (\<lambda>i what. what[i := what ! i + Kd ! i]) [0..<L] what
           = map (\<lambda>i. what ! i + Kd ! i) [0..<L]"
    using assms(1) by (rule acc_loop_full)
  from downdate_loop [of "stack_array L" L U c L Sw]
  obtain Uk where
    dd: "fold (\<lambda>j (Sw, Uk).
                   let Uk = fold (\<lambda>i Uk. Uk[i := U ! (i * L + j)]) [0..<L] Uk
                   in (cholupdate c Sw Uk L False, Uk))
             [0..<L] (Sw, stack_array L)
           = (foldl (\<lambda>S j. cholupdate c S (map (\<lambda>i. U ! (i * L + j)) [0..<L]) L False) Sw [0..<L], Uk)"
    by (auto simp: stack_array_def)
  note dd' = dd [unfolded Let_def]
  show ?thesis
    unfolding update_state_covarariance_matrix_and_state_estimation_vector_def Let_def
      SdT ddhat assms(3)[symmetric] assms(4)[symmetric] w assms(5)[symmetric] dd'
    by simp
qed


theorem corrector_steps_witness:
  "length [0, 0 :: real] = 2 \<and>
   update_state_covarariance_matrix_and_state_estimation_vector degenerate_linalg
     [2, 0, 0, 2] [0, 0] [0, 0] [1, 1] [0, 0, 0, 0] [0, 0, 0, 0] 2 = ([2, 0, 0, 2], [0, 0])"
  using corrector_steps [of "[0, 0]" 2 "[0, 0, 0, 0]"
      "mul_std [0, 0, 0, 0] [0, 0, 0, 0] 2 2 2" degenerate_linalg "[0, 0, 0, 0]"
      "mul_std (mul_std [0, 0, 0, 0] [0, 0, 0, 0] 2 2 2) [1, 1] 2 2 1" "[1, 1]" "[0, 0]"
      "mul_std (mul_std [0, 0, 0, 0] [0, 0, 0, 0] 2 2 2) [0, 0, 0, 0] 2 2 2" "[2, 0, 0, 2]"]
  by (simp add: eval_simps)

subsection \<open>The tick as a whole\<close>

lemma corrector_keeps_what:
  assumes "\<forall>i<L. d ! i = dhat ! i"
    and "\<forall>A. \<forall>i<L. mul c A (replicate L 0) L L 1 ! i = 0"
  shows "snd (update_state_covarariance_matrix_and_state_estimation_vector c
                Sw what dhat d Sd Pwd L) = what"
proof -
  have "fold (\<lambda>i ddhat. ddhat[i := d ! i - dhat ! i]) [0..<L] (stack_array L)
        = map (\<lambda>i. d ! i - dhat ! i) [0..<L]"
    by (simp add: vec_loop_full stack_array_def)
  also have "\<dots> = map (\<lambda>i. 0) [0..<L]"
    using assms(1) by simp
  also have "\<dots> = replicate L 0"
    by (simp add: map_replicate_trivial)
  finally have ddhat: "fold (\<lambda>i ddhat. ddhat[i := d ! i - dhat ! i]) [0..<L] (stack_array L)
                       = replicate L 0" .
  have w: "fold (\<lambda>i what. what[i := what ! i + mul c A (replicate L 0) L L 1 ! i]) [0..<L] what
           = what" for A
    using assms(2) by (intro acc_loop_zero) simp
  show ?thesis
    unfolding update_state_covarariance_matrix_and_state_estimation_vector_def Let_def ddhat w
    by (simp add: split_def)
qed

lemma transition_keeps_x:
  assumes "\<forall>dw x w. fst (snd (G dw x w)) = x"
  shows "snd (compute_transistion_function D W x G L) = x"
proof -
  define N where "N = u8 (2 * L + 1)"
  define step where
    "step = (\<lambda>j (D, x, dw, w).
                    let w = fold (\<lambda>i w. w[i := W ! (i * N + j)]) [0..<L] w;
                        (dw, x, w) = G dw x w;
                        D = fold (\<lambda>i D. D[i * N + j := dw ! i]) [0..<L] D
                    in (D, x, dw, w))"
  have step: "fst (snd (step j s)) = fst (snd s)" for j s
    using assms by (cases s) (simp add: step_def Let_def split_def)
  have inv: "fst (snd (fold step [0..<n] s)) = fst (snd s)" for n s
    by (induction n) (simp_all add: step)
  have "compute_transistion_function D W x G L
        = (let (D, x, dw, w) = fold step [0..<N] (D, x, stack_array L, stack_array L)
           in (D, x))"
    by (simp only: compute_transistion_function_def step_def N_def Let_def)
  then show ?thesis
    by (simp add: split_def inv)
qed

lemma scale_in_range:
  assumes "u8 (2 * L) \<le> length Sw"
  shows "\<exists>Sw'. scale_Sw_with_lambda_rls_factor Sw lambda_rls L = Inr Sw'"
  using scale_loop_ok [OF assms]
  unfolding scale_Sw_with_lambda_rls_factor_def Let_def by blast

lemma zero_step_Inr: "zero_step i (Inr b) = store b i 0"
  by (simp add: zero_step_def)

lemma memset_checked_in_range:
  "n \<le> length b \<Longrightarrow> \<exists>b'. memset_zero_checked b n = Inr b' \<and> length b' = length b"
proof (induction n)
  case 0
  show ?case by (simp add: memset_zero_checked_def)
next
  case (Suc n)
  then obtain b1 where run: "fold zero_step [0..<n] (Inr b) = Inr b1"
    and len: "length b1 = length b"
    by (auto simp: memset_zero_checked_def)
  have "fold zero_step [0..<Suc n] (Inr b) = zero_step n (fold zero_step [0..<n] (Inr b))"
    by simp
  also have "\<dots> = Inr (b1[n := 0])"
    unfolding run zero_step_Inr using len Suc.prems by (simp add: store_def)
  finally show ?case
    using len by (simp add: memset_zero_checked_def)
qed

lemma cross_covariance_in_range:
  assumes "u8 (2 * L) \<le> length Pwd"
  shows "\<exists>P W' D'. create_state_cross_covariance_matrix c Pwd Wc W D what dhat L
                     = Inr (P, W', D')"
proof -
  from memset_checked_in_range [OF assms] obtain Pwd0 where
    "memset_zero_checked Pwd (u8 (2 * L)) = Inr Pwd0" by blast
  then show ?thesis
    unfolding create_state_cross_covariance_matrix_def Let_def split_def by simp
qed

text \<open>A tick whose two checked loops stay in range: what it returns, stage by stage.\<close>

lemma tick_unfolded:
  assumes "scale_Sw_with_lambda_rls_factor Sw lambda_rls L = Inr Sw1"
    and "u8 (2 * L) \<le> L * L"
  shows "\<exists>dhat Sd Pwd x'.
           predicted_measurement what x G lambda_rls Sw alpha beta L = Inr dhat \<and>
           x' = snd (compute_transistion_function (stack_array (L * u8 (2 * L + 1)))
                       (create_sigma_point_matrix (stack_array (L * u8 (2 * L + 1)))
                          what Sw1 alpha (3 - real L) L) x G L) \<and>
           sr_ukf_parameter_estimation c d what Re_cov x G lambda_rls Sw alpha beta L
           = Inr \<lparr>arr_d = d,
                  arr_what = snd (update_state_covarariance_matrix_and_state_estimation_vector c
                                    Sw1 what dhat d Sd Pwd L),
                  arr_Re = Re_cov,
                  arr_x = x',
                  arr_Sw = fst (update_state_covarariance_matrix_and_state_estimation_vector c
                                  Sw1 what dhat d Sd Pwd L)\<rparr>"
proof -
  let ?N = "u8 (2 * L + 1)"
  let ?kappa = "3 - real L"
  let ?W = "create_sigma_point_matrix (stack_array (L * ?N)) what Sw1 alpha ?kappa L"
  let ?Dx = "compute_transistion_function (stack_array (L * ?N)) ?W x G L"
  let ?ws = "create_weights (stack_array ?N) (stack_array ?N) alpha beta ?kappa L"
  let ?dhat = "multiply_sigma_point_matrix_to_weights (stack_array L) (fst ?Dx) (snd ?ws) L"
  let ?Sd = "create_state_estimation_error_covariance_matrix c (stack_array (L * L))
               (fst ?ws) (fst ?Dx) ?dhat Re_cov L"
  have "u8 (2 * L) \<le> length (stack_array (L * L))"
    using assms(2) by (simp add: stack_array_def)
  from cross_covariance_in_range [OF this, of c "fst ?ws" ?W "fst ?Dx" what ?dhat]
  obtain P W' D' where
    cc: "create_state_cross_covariance_matrix c (stack_array (L * L)) (fst ?ws) ?W (fst ?Dx)
           what ?dhat L = Inr (P, W', D')"
    by blast
  show ?thesis
    apply (rule exI [of _ ?dhat])
    apply (rule exI [of _ ?Sd])
    apply (rule exI [of _ P])
    apply (rule exI [of _ "snd ?Dx"])
    unfolding predicted_measurement_def sr_ukf_parameter_estimation_def Let_def split_def
      assms(1)
    using cc apply simp
    done
qed

lemma builder_ignores_inv:
  "create_state_estimation_error_covariance_matrix (c\<lparr>inv_c := f\<rparr>) Sd Wc D dhat Re_cov L
   = create_state_estimation_error_covariance_matrix c Sd Wc D dhat Re_cov L"
  unfolding create_state_estimation_error_covariance_matrix_def Let_def by simp

lemma cross_covariance_ignores_inv:
  "create_state_cross_covariance_matrix (c\<lparr>inv_c := f\<rparr>) Pwd Wc W D what dhat L
   = create_state_cross_covariance_matrix c Pwd Wc W D what dhat L"
  unfolding create_state_cross_covariance_matrix_def Let_def
  by (simp cong: sum.case_cong prod.case_cong)

lemma corrector_ignores_status:
  "update_state_covarariance_matrix_and_state_estimation_vector
     (c\<lparr>inv_c := \<lambda>A row. (ok, snd (inv_c c A row))\<rparr>) Sw what dhat d Sd Pwd L
   = update_state_covarariance_matrix_and_state_estimation_vector c Sw what dhat d Sd Pwd L"
  unfolding update_state_covarariance_matrix_and_state_estimation_vector_def Let_def by simp

lemma mul_std_zero_vector:
  assumes "i < n"
  shows "mul_std A (replicate n 0) n n 1 ! i = 0"
proof -
  have "map (\<lambda>l. A ! (i * n + l) * replicate n 0 ! l) [0..<n] = map (\<lambda>l. 0) [0..<n]"
    by (rule map_cong) simp_all
  then have "sum_list (map (\<lambda>l. A ! (i * n + l) * replicate n 0 ! l) [0..<n])
             = sum_list (map (\<lambda>l. 0) [0..<n])"
    by (simp only:)
  also have "\<dots> = 0"
    by simp
  finally show ?thesis
    using assms by (simp add: mul_std_def)
qed

lemma degenerate_mul_zero_vector:
  "\<forall>A. \<forall>i<n. mul degenerate_linalg A (replicate n 0) n n 1 ! i = 0"
  using mul_std_zero_vector by (simp add: degenerate_linalg_def)

lemma identity_mul_zero_vector:
  "\<forall>A. \<forall>i<n. mul identity_linalg A (replicate n 0) n n 1 ! i = 0"
  using mul_std_zero_vector by (simp add: identity_linalg_def)

text \<open>
  A concrete tick with \<open>L = 2\<close>: \<open>Sw\<close> is the identity, \<open>lambda_rls = 1/4\<close>, \<open>alpha = 1\<close>,
  \<open>beta = 2\<close>, the transition function returns zero and the measurement noise is zero.
  Then \<open>D\<close>, \<open>dhat\<close>, \<open>Sd\<close> and \<open>Pwd\<close> are zero, the product \<open>Sd\<^sup>T Sd\<close> handed to \<^verbatim>\<open>inv\<close> is
  the zero matrix, and every vector handed to \<^verbatim>\<open>cholupdate\<close> is zero. The stages are
  evaluated one by one.
\<close>

lemma ex_scale: "scale_Sw_with_lambda_rls_factor [1, 0, 0, 1] (1 / 4) 2 = Inr [2, 0, 0, 2]"
  unfolding scale_Sw_with_lambda_rls_factor_def Let_def by (simp add: eval_simps)

lemma ex_weights:
  "create_weights (stack_array 5) (stack_array 5) 1 2 1 2
   = ([7 / 3, 1 / 6, 1 / 6, 1 / 6, 1 / 6], [1 / 3, 1 / 6, 1 / 6, 1 / 6, 1 / 6])"
  unfolding create_weights_def Let_def by (simp add: eval_simps)

lemma ex_D:
  "compute_transistion_function (stack_array 10)
     (create_sigma_point_matrix (stack_array 10) [3, 4] [2, 0, 0, 2] 1 1 2) [5, 6] zero_transition 2
   = ([0, 0, 0, 0, 0, 0, 0, 0, 0, 0], [5, 6])"
  unfolding compute_transistion_function_def create_sigma_point_matrix_def Let_def
  by (simp add: eval_simps)

lemma ex_dhat:
  "multiply_sigma_point_matrix_to_weights (stack_array 2) [0, 0, 0, 0, 0, 0, 0, 0, 0, 0]
     [1 / 3, 1 / 6, 1 / 6, 1 / 6, 1 / 6] 2 = [0, 0]"
  unfolding multiply_sigma_point_matrix_to_weights_def Let_def by (simp add: eval_simps)

lemma ex_Sd:
  "create_state_estimation_error_covariance_matrix degenerate_linalg (stack_array 4)
     [7 / 3, 1 / 6, 1 / 6, 1 / 6, 1 / 6] [0, 0, 0, 0, 0, 0, 0, 0, 0, 0] [0, 0] [0, 0, 0, 0] 2
   = [0, 0, 0, 0]"
  unfolding create_state_estimation_error_covariance_matrix_def build_AT_def build_b_def Let_def
  by (simp add: eval_simps)

lemma ex_Pwd:
  "\<exists>W' D'. create_state_cross_covariance_matrix degenerate_linalg (stack_array 4)
          [7 / 3, 1 / 6, 1 / 6, 1 / 6, 1 / 6]
          (create_sigma_point_matrix (stack_array 10) [3, 4] [2, 0, 0, 2] 1 1 2)
          [0, 0, 0, 0, 0, 0, 0, 0, 0, 0] [3, 4] [0, 0] 2
   = Inr ([0, 0, 0, 0], W', D')"
  unfolding create_state_cross_covariance_matrix_def create_sigma_point_matrix_def
    memset_zero_checked_def Let_def
  by (simp add: eval_simps zero_step_def)

lemma ex_update:
  "update_state_covarariance_matrix_and_state_estimation_vector degenerate_linalg
     [2, 0, 0, 2] [3, 4] [0, 0] [1, 1] [0, 0, 0, 0] [0, 0, 0, 0] 2 = ([2, 0, 0, 2], [3, 4])"
  unfolding update_state_covarariance_matrix_and_state_estimation_vector_def Let_def
  by (simp add: eval_simps)

lemma ex_predicted:
  "predicted_measurement [3, 4] [5, 6] zero_transition (1 / 4) [1, 0, 0, 1] 1 2 2 = Inr [0, 0]"
  unfolding predicted_measurement_def Let_def split_def
  by (simp add: u8_def ex_scale ex_weights ex_D ex_dhat)

section \<open>Properties of the tick\<close>

text \<open>
  Claim C1 fails as stated. In the tick above the builder returns \<open>Sd = 0\<close>, so \<^verbatim>\<open>inv\<close> is
  handed the product \<open>Sd\<^sup>T Sd = 0\<close> and fails. Yet the tick ends as any other, with the
  arrays as its result, and \<open>Sw\<close> is no longer the identity the caller passed: it has been
  scaled by \<open>1 / sqrt (1/4) = 2\<close>.
\<close>

theorem failed_inverse_counterexample:
  "mul degenerate_linalg (tran degenerate_linalg [0, 0, 0, 0] 2 2) [0, 0, 0, 0] 2 2 2
   = [0, 0, 0, 0] \<and>
   fst (inv_c degenerate_linalg [0, 0, 0, 0] 2) = False \<and>
   sr_ukf_parameter_estimation degenerate_linalg [1, 1] [3, 4] [0, 0, 0, 0] [5, 6]
     zero_transition (1 / 4) [1, 0, 0, 1] 1 2 2
   = Inr \<lparr>arr_d = [1, 1], arr_what = [3, 4], arr_Re = [0, 0, 0, 0], arr_x = [5, 6],
          arr_Sw = [2, 0, 0, 2]\<rparr>"
proof (intro conjI)
  show "mul degenerate_linalg (tran degenerate_linalg [0, 0, 0, 0] 2 2) [0, 0, 0, 0] 2 2 2
        = [0, 0, 0, 0]"
    by (simp add: eval_simps)
  show "fst (inv_c degenerate_linalg [0, 0, 0, 0] 2) = False"
    by (simp add: degenerate_linalg_def inv_of_singular_def)
  from ex_Pwd obtain W' D' where
    pwd: "create_state_cross_covariance_matrix degenerate_linalg (stack_array 4)
            [7 / 3, 1 / 6, 1 / 6, 1 / 6, 1 / 6]
            (create_sigma_point_matrix (stack_array 10) [3, 4] [2, 0, 0, 2] 1 1 2)
            [0, 0, 0, 0, 0, 0, 0, 0, 0, 0] [3, 4] [0, 0] 2
          = Inr ([0, 0, 0, 0], W', D')"
    by blast
  show "sr_ukf_parameter_estimation degenerate_linalg [1, 1] [3, 4] [0, 0, 0, 0] [5, 6]
          zero_transition (1 / 4) [1, 0, 0, 1] 1 2 2
        = Inr \<lparr>arr_d = [1, 1], arr_what = [3, 4], arr_Re = [0, 0, 0, 0], arr_x = [5, 6],
               arr_Sw = [2, 0, 0, 2]\<rparr>"
    unfolding sr_ukf_parameter_estimation_def Let_def split_def
    by (simp add: u8_def ex_scale ex_weights ex_D ex_dhat ex_Sd pwd ex_update)
qed

text \<open>
  Claim C1, as amended. The function returns \<^verbatim>\<open>void\<close> and drops the status of \<^verbatim>\<open>inv\<close>: a
  tick in which \<^verbatim>\<open>inv\<close> reports failure ends exactly as a tick in which it reports
  success and leaves the same array. Whatever the collaborators do, a tick with
  \<open>2 \<le> L \<le> 85\<close> and an array \<open>Sw\<close> of \<open>L * L\<close> entries ends with the five arrays as its
  only result, and \<open>Sw\<close> and \<open>what\<close> are then what the corrector has made of the scaled
  \<open>Sw\<close> and of \<open>what\<close>: they are written in place, not staged.
\<close>

theorem inverse_failure_unreported:
  "sr_ukf_parameter_estimation (c\<lparr>inv_c := \<lambda>A row. (ok, snd (inv_c c A row))\<rparr>)
     d what Re_cov x G lambda_rls Sw alpha beta L
   = sr_ukf_parameter_estimation c d what Re_cov x G lambda_rls Sw alpha beta L \<and>
   (2 \<le> L \<and> L \<le> 85 \<and> length Sw = L * L \<longrightarrow>
      (\<exists>r Sw1 dhat Sd Pwd.
         scale_Sw_with_lambda_rls_factor Sw lambda_rls L = Inr Sw1 \<and>
         sr_ukf_parameter_estimation c d what Re_cov x G lambda_rls Sw alpha beta L = Inr r \<and>
         arr_Sw r = fst (update_state_covarariance_matrix_and_state_estimation_vector c
                           Sw1 what dhat d Sd Pwd L) \<and>
         arr_what r = snd (update_state_covarariance_matrix_and_state_estimation_vector c
                             Sw1 what dhat d Sd Pwd L)))"
proof (intro conjI impI)
  show "sr_ukf_parameter_estimation (c\<lparr>inv_c := \<lambda>A row. (ok, snd (inv_c c A row))\<rparr>)
          d what Re_cov x G lambda_rls Sw alpha beta L
        = sr_ukf_parameter_estimation c d what Re_cov x G lambda_rls Sw alpha beta L"
    unfolding sr_ukf_parameter_estimation_def builder_ignores_inv cross_covariance_ignores_inv
      corrector_ignores_status
    by (rule refl)
next
  assume a: "2 \<le> L \<and> L \<le> 85 \<and> length Sw = L * L"
  have "u8 (2 * L) \<le> 2 * L" by (simp add: u8_def)
  also have "\<dots> \<le> L * L" using a by simp
  finally have k: "u8 (2 * L) \<le> L * L" .
  then have "u8 (2 * L) \<le> length Sw" using a by simp
  from scale_in_range [OF this] obtain Sw1 where
    sc: "scale_Sw_with_lambda_rls_factor Sw lambda_rls L = Inr Sw1" ..
  from tick_unfolded [OF sc k, of what x G alpha beta c d Re_cov]
  obtain dhat Sd Pwd x' where
    "sr_ukf_parameter_estimation c d what Re_cov x G lambda_rls Sw alpha beta L
     = Inr \<lparr>arr_d = d,
            arr_what = snd (update_state_covarariance_matrix_and_state_estimation_vector c
                              Sw1 what dhat d Sd Pwd L),
            arr_Re = Re_cov,
            arr_x = x',
            arr_Sw = fst (update_state_covarariance_matrix_and_state_estimation_vector c
                            Sw1 what dhat d Sd Pwd L)\<rparr>"
    by blast
  with sc show "\<exists>r Sw1 dhat Sd Pwd.
         scale_Sw_with_lambda_rls_factor Sw lambda_rls L = Inr Sw1 \<and>
         sr_ukf_parameter_estimation c d what Re_cov x G lambda_rls Sw alpha beta L = Inr r \<and>
         arr_Sw r = fst (update_state_covarariance_matrix_and_state_estimation_vector c
                           Sw1 what dhat d Sd Pwd L) \<and>
         arr_what r = snd (update_state_covarariance_matrix_and_state_estimation_vector c
                             Sw1 what dhat d Sd Pwd L)"
    by force
qed

theorem inverse_failure_unreported_witness:
  "(2::nat) \<le> 2 \<and> length [1, 0, 0, 1 :: real] = 2 * 2 \<and>
   (\<exists>r Sw1 dhat Sd Pwd.
      scale_Sw_with_lambda_rls_factor [1, 0, 0, 1] (1 / 4) 2 = Inr Sw1 \<and>
      sr_ukf_parameter_estimation degenerate_linalg [1, 1] [3, 4] [0, 0, 0, 0] [5, 6]
        zero_transition (1 / 4) [1, 0, 0, 1] 1 2 2 = Inr r \<and>
      arr_Sw r = fst (update_state_covarariance_matrix_and_state_estimation_vector
                        degenerate_linalg Sw1 [3, 4] dhat [1, 1] Sd Pwd 2) \<and>
      arr_what r = snd (update_state_covarariance_matrix_and_state_estimation_vector
                          degenerate_linalg Sw1 [3, 4] dhat [1, 1] Sd Pwd 2))"
  using inverse_failure_unreported [of True degenerate_linalg "[1, 1]" "[3, 4]" "[0, 0, 0, 0]"
      "[5, 6]" zero_transition "1 / 4" "[1, 0, 0, 1]" 1 2 2]
  by simp

text \<open>
  Claim C9. Whenever the corrector is called with a measurement \<open>d\<close> that equals, entry
  by entry, the predicted measurement \<open>dhat\<close>, as in every tick whose measurement equals
  the \<open>dhat\<close> computed in that tick, it leaves \<open>what\<close> as it was: \<open>d - dhat\<close> is the zero
  vector and so is \<open>K (d - dhat)\<close>, whatever the gain \<open>K\<close>, provided the external \<^verbatim>\<open>mul\<close> maps
  a zero vector to a zero vector, as a matrix product does (in the arithmetic of the
  reals). This holds for every dimension \<open>L\<close>.
\<close>

theorem corrector_zero_innovation:
  assumes "\<forall>i<L. d ! i = dhat ! i"
    and "\<forall>A. \<forall>i<L. mul c A (replicate L 0) L L 1 ! i = 0"
  shows "snd (update_state_covarariance_matrix_and_state_estimation_vector c
                Sw what dhat d Sd Pwd L) = what"
  using assms by (rule corrector_keeps_what)

text \<open>A call with \<open>L = 2\<close> in which the gain is not zero: \<open>Sd\<close> is the identity, so
  \<open>K = Pwd = [1, 2, 3, 4]\<close>, and \<open>d = dhat = [5, 6]\<close>.\<close>

theorem corrector_zero_innovation_witness:
  "mul identity_linalg [1, 2, 3, 4]
     (snd (inv_c identity_linalg
             (mul identity_linalg (tran identity_linalg [1, 0, 0, 1] 2 2) [1, 0, 0, 1] 2 2 2) 2))
     2 2 2 = [1, 2, 3, 4] \<and>
   snd (update_state_covarariance_matrix_and_state_estimation_vector identity_linalg
          [2, 0, 0, 2] [3, 4] [5, 6] [5, 6] [1, 0, 0, 1] [1, 2, 3, 4] 2) = [3, 4]"
proof
  show "mul identity_linalg [1, 2, 3, 4]
     (snd (inv_c identity_linalg
             (mul identity_linalg (tran identity_linalg [1, 0, 0, 1] 2 2) [1, 0, 0, 1] 2 2 2) 2))
     2 2 2 = [1, 2, 3, 4]"
    by (simp add: identity_linalg_def inv_of_identity_def eval_simps)
  show "snd (update_state_covarariance_matrix_and_state_estimation_vector identity_linalg
          [2, 0, 0, 2] [3, 4] [5, 6] [5, 6] [1, 0, 0, 1] [1, 2, 3, 4] 2) = [3, 4]"
    using corrector_zero_innovation [OF _ identity_mul_zero_vector,
        of 2 "[5, 6]" "[5, 6]" "[2, 0, 0, 2]" "[3, 4]" "[1, 0, 0, 1]" "[1, 2, 3, 4]"]
    by simp
qed

text \<open>
  The same at the level of the tick, for \<open>2 \<le> L \<le> 85\<close>, where no size wraps and the two
  checked loops stay inside their arrays: if \<open>d\<close> equals the predicted measurement that
  the tick computes, the caller's \<open>what\<close> is afterwards what it was.
\<close>

lemma tick_zero_innovation:
  assumes "2 \<le> L" and "L \<le> 85"
    and "predicted_measurement what x G lambda_rls Sw alpha beta L = Inr dhat"
    and "\<forall>i<L. d ! i = dhat ! i"
    and "\<forall>A. \<forall>i<L. mul c A (replicate L 0) L L 1 ! i = 0"
  shows "\<exists>r. sr_ukf_parameter_estimation c d what Re_cov x G lambda_rls Sw alpha beta L = Inr r \<and>
             arr_what r = what"
proof -
  have "u8 (2 * L) \<le> 2 * L" by (simp add: u8_def)
  also have "\<dots> \<le> L * L" using assms(1) by simp
  finally have k: "u8 (2 * L) \<le> L * L" .
  obtain Sw1 where "scale_Sw_with_lambda_rls_factor Sw lambda_rls L = Inr Sw1"
    using assms(3) unfolding predicted_measurement_def Let_def split_def
    by (auto split: sum.splits)
  from tick_unfolded [OF this k, of what x G alpha beta c d Re_cov] assms(3)
  show ?thesis
    by (auto simp: corrector_keeps_what [OF assms(4,5)])
qed

lemma tick_zero_innovation_example:
  "\<exists>r. sr_ukf_parameter_estimation degenerate_linalg [0, 0] [3, 4] [0, 0, 0, 0] [5, 6]
          zero_transition (1 / 4) [1, 0, 0, 1] 1 2 2 = Inr r \<and>
       arr_what r = [3, 4]"
  using tick_zero_innovation [OF _ _ ex_predicted _ degenerate_mul_zero_vector,
      of "[0, 0]" "[0, 0, 0, 0]"]
  by (simp add: less_Suc_eq numeral_2_eq_2)

text \<open>
  The frame of a tick, for \<open>2 \<le> L \<le> 85\<close> and an array \<open>Sw\<close> of \<open>L * L\<close> entries, where no
  size wraps and the two checked loops stay inside their arrays: the tick does not write
  \<open>d\<close>, \<open>Re\<close> or \<open>x\<close>, provided the transition function does not write its second
  argument. Afterwards the three arrays hold what they held before.
\<close>

theorem tick_frame:
  assumes "2 \<le> L" and "L \<le> 85" and "length Sw = L * L"
    and "\<forall>dw x w. fst (snd (G dw x w)) = x"
  shows "\<exists>r. sr_ukf_parameter_estimation c d what Re_cov x G lambda_rls Sw alpha beta L = Inr r \<and>
             arr_d r = d \<and> arr_Re r = Re_cov \<and> arr_x r = x"
proof -
  have "u8 (2 * L) \<le> 2 * L" by (simp add: u8_def)
  also have "\<dots> \<le> L * L" using assms(1) by simp
  finally have k: "u8 (2 * L) \<le> L * L" .
  then have "u8 (2 * L) \<le> length Sw" using assms(3) by simp
  from scale_in_range [OF this] obtain Sw1 where
    "scale_Sw_with_lambda_rls_factor Sw lambda_rls L = Inr Sw1" ..
  from tick_unfolded [OF this k, of what x G alpha beta c d Re_cov]
  show ?thesis
    by (auto simp: transition_keeps_x [OF assms(4)])
qed

theorem tick_frame_witness:
  "\<exists>r. sr_ukf_parameter_estimation degenerate_linalg [1, 1] [3, 4] [0, 0, 0, 0] [5, 6]
          zero_transition (1 / 4) [1, 0, 0, 1] 1 2 2 = Inr r \<and>
       arr_d r = [1, 1] \<and> arr_Re r = [0, 0, 0, 0] \<and> arr_x r = [5, 6]"
  using tick_frame [of 2 "[1, 0, 0, 1]" zero_transition degenerate_linalg "[1, 1]" "[3, 4]"
      "[0, 0, 0, 0]" "[5, 6]" "1 / 4" 1 2]
  by (simp add: zero_transition_def)

section \<open>Outside the stated dimensions\<close>

text \<open>
  Why theorems above bound \<open>L\<close>. The sizes are \<^verbatim>\<open>uint8_t\<close>: at \<open>L = 128\<close> the size
  \<open>N = 2L + 1\<close> wraps to 1, the loop of \<open>create_weights\<close> never runs and only the entries at
  index 0 are written; at \<open>L = 86\<close> the size \<open>M = 3L\<close> of the builder wraps to 2. At
  \<open>L = 1\<close> the \<^verbatim>\<open>memset\<close> of \<^verbatim>\<open>Pwd\<close> clears two entries of an array of one.
\<close>

lemma weights_size_wraps:
  "create_weights Wc Wm alpha beta kappa 128
   = (Wc[0 := Wm[0 := (alpha * alpha * (128 + kappa) - 128)
                        / (128 + (alpha * alpha * (128 + kappa) - 128))] ! 0
               + 1 - alpha * alpha + beta],
      Wm[0 := (alpha * alpha * (128 + kappa) - 128)
                / (128 + (alpha * alpha * (128 + kappa) - 128))])"
  unfolding create_weights_def Let_def by (simp add: u8_def)

lemma builder_size_wraps: "u8 (2 * 86 + 86) = 2"
  by (simp add: u8_def)




end
